theory Spec2Isabelle
  imports Complex_Main
begin

section \<open>Value interpolation of the animation library\<close>

text \<open>
  The page is a single React component file, \<^verbatim>\<open>src/App.tsx\<close>. Its components hand
  numbers to the animation library \<^verbatim>\<open>motion/react\<close>, which is a dependency and not
  part of the sources. JavaScript numbers are idealised as \<^typ>\<open>real\<close>.
\<close>

text \<open>
  Modelled from the spec: \<^verbatim>\<open>useTransform\<close> of the animation library (not in the
  sources). The spec calls it a piecewise-linear interpolation over fixed breakpoints:
  the input is clamped to the breakpoint range, the segment that holds it is looked
  up from the left, and the two outputs of that segment are mixed linearly.
\<close>

definition clamp :: "real \<Rightarrow> real \<Rightarrow> real \<Rightarrow> real" where
  "clamp lo hi v = (if v > hi then hi else if v < lo then lo else v)"

definition progress :: "real \<Rightarrow> real \<Rightarrow> real \<Rightarrow> real" where
  "progress from to v = (if to - from = 0 then 1 else (v - from) / (to - from))"

definition mixNumber :: "real \<Rightarrow> real \<Rightarrow> real \<Rightarrow> real" where
  "mixNumber from to p = from + (to - from) * p"

fun segments :: "(real \<times> real) list \<Rightarrow> real \<Rightarrow> real" where
  "segments ((a, oa) # (b, ob) # (c, oc) # rest) v =
     (if v < b then mixNumber oa ob (progress a b v)
      else segments ((b, ob) # (c, oc) # rest) v)"
| "segments [(a, oa), (b, ob)] v = mixNumber oa ob (progress a b v)"
| "segments [(a, oa)] v = oa"
| "segments [] v = v"

definition useTransform :: "real \<Rightarrow> real list \<Rightarrow> real list \<Rightarrow> real" where
  "useTransform v inputRange outputRange =
     (case inputRange of
        [] \<Rightarrow> v
      | lo # _ \<Rightarrow> segments (zip inputRange outputRange) (clamp lo (last inputRange) v))"

section \<open>CameraStage: scroll progress to visual parameters\<close>

text \<open>
  \<^verbatim>\<open>const scale = useTransform(scrollYProgress, [0, 1], [1, 0.8]);\<close>
  \<^verbatim>\<open>const rotate = useTransform(scrollYProgress, [0, 1], [0, -5]);\<close>
  \<^verbatim>\<open>const y = useTransform(scrollYProgress, [0, 1], [0, -50]);\<close>
  \<^verbatim>\<open>const opacity = useTransform(scrollYProgress, [0, 0.8, 1], [1, 1, 0]);\<close>
\<close>

definition CameraStage_scale :: "real \<Rightarrow> real" where
  "CameraStage_scale scrollYProgress = useTransform scrollYProgress [0, 1] [1, 0.8]"

definition CameraStage_rotate :: "real \<Rightarrow> real" where
  "CameraStage_rotate scrollYProgress = useTransform scrollYProgress [0, 1] [0, -5]"

definition CameraStage_y :: "real \<Rightarrow> real" where
  "CameraStage_y scrollYProgress = useTransform scrollYProgress [0, 1] [0, -50]"

definition CameraStage_opacity :: "real \<Rightarrow> real" where
  "CameraStage_opacity scrollYProgress = useTransform scrollYProgress [0, 0.8, 1] [1, 1, 0]"

section \<open>FlashIntro: the intro overlay\<close>

text \<open>
  \<^verbatim>\<open>FlashIntro\<close> is one animated layer:
  \<^verbatim>\<open>initial={{ opacity: 1 }} animate={{ opacity: 0 }}\<close>
  \<^verbatim>\<open>transition={{ duration: 1.5, ease: "easeOut", delay: 0.5 }}\<close>
  \<^verbatim>\<open>onAnimationComplete={onComplete}\<close>
  \<^verbatim>\<open>className="fixed inset-0 z-[100] bg-white pointer-events-none flex items-center justify-center"\<close>
  The record holds the properties the component passes; times are in seconds, a class
  attribute is the list of its class names.
\<close>

record motion_props =
  initial_opacity :: real
  animate_opacity :: real
  duration :: real
  delay :: real
  className :: "string list"

text \<open>
  Modelled from the spec: the animation driver of the library (not in the sources). The
  spec's contract for the overlay is an opaque layer that starts to fade after a fixed
  delay and signals completion when the fade finishes. The driver keeps the time
  since mount and whether the completion callback was delivered. A frame advances the
  time; the first frame at or after \<open>delay + duration\<close> delivers the callback. During the
  delay the layer keeps its initial opacity, afterwards it follows the easing curve
  (a parameter: nothing below depends on the shape of \<^verbatim>\<open>easeOut\<close>), and from
  \<open>delay + duration\<close> on it has the target opacity.
\<close>

record motion_state =
  elapsed :: real
  completed :: bool

definition motion_mount :: motion_state where
  "motion_mount = \<lparr>elapsed = 0, completed = False\<rparr>"

definition motion_opacity :: "(real \<Rightarrow> real) \<Rightarrow> motion_props \<Rightarrow> real \<Rightarrow> real" where
  "motion_opacity curve m t =
     (if t \<le> delay m then initial_opacity m
      else if delay m + duration m \<le> t then animate_opacity m
      else mixNumber (initial_opacity m) (animate_opacity m) (curve ((t - delay m) / duration m)))"

definition motion_frame :: "motion_props \<Rightarrow> real \<Rightarrow> motion_state \<Rightarrow> motion_state \<times> bool" where
  "motion_frame m dt st =
     (let t = elapsed st + dt in
      if \<not> completed st \<and> delay m + duration m \<le> t
      then (\<lparr>elapsed = t, completed = True\<rparr>, True)
      else (st\<lparr>elapsed := t\<rparr>, False))"

definition FlashIntro :: motion_props where
  "FlashIntro = \<lparr>initial_opacity = 1, animate_opacity = 0, duration = 1.5, delay = 0.5,
     className = [''fixed'', ''inset-0'', ''z-[100]'', ''bg-white'', ''pointer-events-none'',
                  ''flex'', ''items-center'', ''justify-center'']\<rparr>"

text \<open>
  The number of times \<^verbatim>\<open>onComplete\<close> is invoked while the frames \<open>dts\<close> pass (each
  entry is the time since the previous frame).
\<close>

fun FlashIntro_calls :: "motion_state \<Rightarrow> real list \<Rightarrow> nat" where
  "FlashIntro_calls st [] = 0"
| "FlashIntro_calls st (dt # dts) =
     (case motion_frame FlashIntro dt st of
        (st1, fired) \<Rightarrow> (if fired then 1 else 0) + FlashIntro_calls st1 dts)"

section \<open>Events of the page\<close>

text \<open>
  What the browser delivers to the page after mount: an animation frame (seconds since
  the previous frame), an interval timer firing (timer id, wall clock in milliseconds
  since the epoch at that moment), a \<^verbatim>\<open>mousemove\<close> on the window
  (\<^verbatim>\<open>clientX\<close>, \<^verbatim>\<open>clientY\<close>), and a viewport intersection update for gallery image
  \<open>i\<close> (\<^verbatim>\<open>isIntersecting\<close>).
\<close>

datatype event =
    Frame real
  | TimerFire nat nat
  | MouseMove int int
  | Intersection nat bool

section \<open>App: the root component\<close>

text \<open>
  A rendered tree: tag or component name, class names, children. Child components
  whose inside is not needed here are leaves that carry their name.
\<close>

datatype element = Element (tag: string) (classes: "string list") (children: "element list")

text \<open>
  \<^verbatim>\<open>const [isLoaded, setIsLoaded] = useState(false);\<close>
  \<^verbatim>\<open>{!isLoaded && <FlashIntro onComplete={() => setIsLoaded(true)} />}\<close>
  The state of the root is the flag and, while the overlay is mounted, the overlay's
  animation. Only an animation frame can reach the root: through the overlay's
  completion callback. The root has no other handler, and once the flag is set the
  overlay is no longer rendered.
\<close>

record App_state =
  isLoaded :: bool
  intro :: motion_state

definition App_mount :: App_state where
  "App_mount = \<lparr>isLoaded = False, intro = motion_mount\<rparr>"

definition setIsLoaded :: "bool \<Rightarrow> App_state \<Rightarrow> App_state" where
  "setIsLoaded b s = s\<lparr>isLoaded := b\<rparr>"

fun App_step :: "App_state \<Rightarrow> event \<Rightarrow> App_state" where
  "App_step s (Frame dt) =
     (if isLoaded s then s
      else (case motion_frame FlashIntro dt (intro s) of
              (a, fired) \<Rightarrow> (if fired then setIsLoaded True (s\<lparr>intro := a\<rparr>) else s\<lparr>intro := a\<rparr>)))"
| "App_step s _ = s"

fun App_run :: "App_state \<Rightarrow> event list \<Rightarrow> App_state" where
  "App_run s [] = s"
| "App_run s (e # es) = App_run (App_step s e) es"

text \<open>
  Along a run, the number of steps at which the flag goes from false to true, and the
  number of steps at which it goes from true to false.
\<close>

fun App_flips :: "App_state \<Rightarrow> event list \<Rightarrow> nat" where
  "App_flips s [] = 0"
| "App_flips s (e # es) =
     (if \<not> isLoaded s \<and> isLoaded (App_step s e) then 1 else 0) + App_flips (App_step s e) es"

fun App_reverts :: "App_state \<Rightarrow> event list \<Rightarrow> nat" where
  "App_reverts s [] = 0"
| "App_reverts s (e # es) =
     (if isLoaded s \<and> \<not> isLoaded (App_step s e) then 1 else 0) + App_reverts (App_step s e) es"

fun frame_time :: "event \<Rightarrow> real" where
  "frame_time (Frame dt) = dt"
| "frame_time _ = 0"

text \<open>
  The tree that \<^verbatim>\<open>App\<close> returns. The content region is rendered in both states;
  \<^verbatim>\<open>cn("transition-opacity duration-1000", isLoaded ? "opacity-100" : "opacity-0")\<close>
  picks its opacity class.
\<close>

definition FlashIntro_render :: element where
  "FlashIntro_render =
     Element ''motion.div'' (className FlashIntro)
       [Element ''motion.div'' [] [Element ''Zap'' [''w-24'', ''h-24'', ''text-black'', ''fill-black''] []]]"

definition App_content :: "bool \<Rightarrow> element" where
  "App_content loaded =
     Element ''div''
       [''transition-opacity'', ''duration-1000'', (if loaded then ''opacity-100'' else ''opacity-0'')]
       [Element ''CameraStage'' [] [],
        Element ''AboutSection'' [] [],
        Element ''SpecsSection'' [] [],
        Element ''Gallery'' [] [],
        Element ''ContactSection'' [] [],
        Element ''footer'' [''pt-0'', ''pb-20'', ''px-6'', ''border-t'', ''border-white/5''] []]"

definition App_render :: "App_state \<Rightarrow> element" where
  "App_render s =
     Element ''main''
       [''relative'', ''min-h-screen'', ''bg-black'', ''text-white'', ''font-sans'',
        ''selection:bg-accent'', ''selection:text-black'', ''overflow-x-hidden'']
       ((if \<not> isLoaded s then [FlashIntro_render] else []) @
        [Element ''div'' [''fixed'', ''inset-0'', ''tech-grid'', ''opacity-20'', ''pointer-events-none''] [],
         Element ''BackgroundElements'' [] [],
         Element ''div'' [''noise-overlay''] [],
         Element ''HUD'' [] [],
         App_content (isLoaded s)])"

text \<open>
  Modelled from the spec: the browser's choice of the target of a pointer event
  (platform, not in the sources), behind the spec's demand that the overlay never
  blocks interaction. The style property \<^verbatim>\<open>pointer-events\<close> is inherited: an element
  has the value of its parent unless one of its own classes sets it, and the root of
  the page starts with \<^verbatim>\<open>auto\<close>. An element with the value \<^verbatim>\<open>none\<close> is never the
  target, so the event goes to what lies beneath it. A descendant that carries
  \<^verbatim>\<open>pointer-events-auto\<close> is a target again, whatever its ancestors have; where an
  element carries both classes it is counted as a target. \<open>subtree\<close> lists an element
  and everything under it; \<open>pointer_targets inherited e\<close> says whether some element of
  the subtree of \<open>e\<close> can be the target of a pointer event when the parent of \<open>e\<close>
  has the value \<open>inherited\<close> (true for \<^verbatim>\<open>auto\<close>).
\<close>

fun subtree :: "element \<Rightarrow> element list" where
  "subtree (Element t cs ch) = Element t cs ch # concat (map subtree ch)"

fun pointer_targets :: "bool \<Rightarrow> element \<Rightarrow> bool" where
  "pointer_targets inherited (Element t cs ch) =
     (let own = (if ''pointer-events-auto'' \<in> set cs then True
                 else if ''pointer-events-none'' \<in> set cs then False
                 else inherited)
      in own \<or> (\<exists>c\<in>set ch. pointer_targets own c))"

section \<open>HUD: clock and pointer read-out\<close>

text \<open>
  Modelled from the spec: the browser's interval timers and event listeners (platform,
  not in the sources), which the spec calls the two external signal sources that the
  HUD subscribes to on mount and unsubscribes from on unmount. The window keeps a
  table of active interval timers (id, period in milliseconds, callback) and a table
  of listeners (event type, callback). \<^verbatim>\<open>setInterval\<close> returns a fresh id;
  \<^verbatim>\<open>clearInterval\<close> drops the timer with that id; \<^verbatim>\<open>addEventListener\<close> ignores a
  registration that is already there; \<^verbatim>\<open>removeEventListener\<close> drops it. The two
  callbacks are the closures that the effect of \<^verbatim>\<open>HUD\<close> creates. A timer that fires
  runs the callback of that timer if it is still in the table; a \<^verbatim>\<open>mousemove\<close> runs
  every listener registered for it. A \<^verbatim>\<open>Date\<close> is its number of milliseconds.
\<close>

type_synonym date = nat

datatype callback = SetTimeTick | HandleMouseMove

record window =
  intervals :: "(nat \<times> nat \<times> callback) list"
  listeners :: "(string \<times> callback) list"
  next_timer :: nat

definition window_load :: window where
  "window_load = \<lparr>intervals = [], listeners = [], next_timer = 1\<rparr>"

definition setInterval :: "callback \<Rightarrow> nat \<Rightarrow> window \<Rightarrow> nat \<times> window" where
  "setInterval cb ms w =
     (next_timer w,
      w\<lparr>intervals := intervals w @ [(next_timer w, ms, cb)], next_timer := Suc (next_timer w)\<rparr>)"

definition clearInterval :: "nat \<Rightarrow> window \<Rightarrow> window" where
  "clearInterval i w = w\<lparr>intervals := filter (\<lambda>(j, ms, cb). j \<noteq> i) (intervals w)\<rparr>"

definition addEventListener :: "string \<Rightarrow> callback \<Rightarrow> window \<Rightarrow> window" where
  "addEventListener ty cb w =
     (if (ty, cb) \<in> set (listeners w) then w else w\<lparr>listeners := listeners w @ [(ty, cb)]\<rparr>)"

definition removeEventListener :: "string \<Rightarrow> callback \<Rightarrow> window \<Rightarrow> window" where
  "removeEventListener ty cb w = w\<lparr>listeners := removeAll (ty, cb) (listeners w)\<rparr>"

fun dispatch :: "window \<Rightarrow> event \<Rightarrow> callback list" where
  "dispatch w (TimerFire i now) = map (\<lambda>(j, ms, cb). cb) (filter (\<lambda>(j, ms, cb). j = i) (intervals w))"
| "dispatch w (MouseMove clientX clientY) =
     map snd (filter (\<lambda>(ty, cb). ty = ''mousemove'') (listeners w))"
| "dispatch w _ = []"

text \<open>
  \<^verbatim>\<open>Number.prototype.toString\<close> on an integer and \<^verbatim>\<open>String.prototype.padStart\<close>:
  decimal digits with a leading minus sign for a negative number; the pad string is
  repeated and cut to the missing length, and a string that is long enough is returned
  as it is. \<open>decimal\<close> reads a digit string back and is used to state what is shown.
\<close>

definition digit :: "nat \<Rightarrow> char" where
  "digit d = ''0123456789'' ! d"

fun digits :: "nat \<Rightarrow> string" where
  "digits n = (if n < 10 then [digit n] else digits (n div 10) @ [digit (n mod 10)])"

declare digits.simps [simp del]

definition toString :: "int \<Rightarrow> string" where
  "toString i = (if i < 0 then CHR ''-'' # digits (nat (- i)) else digits (nat i))"

definition padStart :: "nat \<Rightarrow> string \<Rightarrow> string \<Rightarrow> string" where
  "padStart targetLength padString s =
     (if targetLength \<le> length s \<or> padString = [] then s
      else take (targetLength - length s)
             (concat (replicate (targetLength - length s) padString)) @ s)"

text \<open>
  \<^verbatim>\<open>const [time, setTime] = useState(new Date().toLocaleTimeString());\<close>
  \<^verbatim>\<open>const [coords, setCoords] = useState({ x: 0, y: 0 });\<close>
  \<^verbatim>\<open>const timer = setInterval(() => setTime(new Date().toLocaleTimeString()), 1000);\<close>
  \<^verbatim>\<open>const handleMouseMove = (e) => { setCoords({ x: e.clientX, y: e.clientY }); };\<close>
  \<^verbatim>\<open>window.addEventListener('mousemove', handleMouseMove);\<close>
  \<^verbatim>\<open>return () => { clearInterval(timer); window.removeEventListener('mousemove', handleMouseMove); };\<close>
  The locale's time format is a parameter. \<open>coords\<close> is the pair \<open>(x, y)\<close>. The effect
  returns the timer id that its cleanup closes over.
\<close>

record HUD_state =
  time :: string
  coords :: "int \<times> int"

definition HUD_init :: "(date \<Rightarrow> string) \<Rightarrow> date \<Rightarrow> HUD_state" where
  "HUD_init toLocaleTimeString now = \<lparr>time = toLocaleTimeString now, coords = (0, 0)\<rparr>"

definition HUD_effect :: "window \<Rightarrow> nat \<times> window" where
  "HUD_effect w =
     (case setInterval SetTimeTick 1000 w of
        (timer, w1) \<Rightarrow> (timer, addEventListener ''mousemove'' HandleMouseMove w1))"

definition HUD_cleanup :: "nat \<Rightarrow> window \<Rightarrow> window" where
  "HUD_cleanup timer w = removeEventListener ''mousemove'' HandleMouseMove (clearInterval timer w)"

fun HUD_callback :: "(date \<Rightarrow> string) \<Rightarrow> event \<Rightarrow> callback \<Rightarrow> HUD_state \<Rightarrow> HUD_state" where
  "HUD_callback toLocaleTimeString (TimerFire i now) SetTimeTick s = s\<lparr>time := toLocaleTimeString now\<rparr>"
| "HUD_callback toLocaleTimeString (MouseMove clientX clientY) HandleMouseMove s =
     s\<lparr>coords := (clientX, clientY)\<rparr>"
| "HUD_callback toLocaleTimeString _ _ s = s"

definition HUD_event :: "(date \<Rightarrow> string) \<Rightarrow> window \<Rightarrow> event \<Rightarrow> HUD_state \<Rightarrow> HUD_state" where
  "HUD_event toLocaleTimeString w e s = fold (HUD_callback toLocaleTimeString e) (dispatch w e) s"

definition HUD_events :: "(date \<Rightarrow> string) \<Rightarrow> window \<Rightarrow> event list \<Rightarrow> HUD_state \<Rightarrow> HUD_state" where
  "HUD_events toLocaleTimeString w es s = fold (HUD_event toLocaleTimeString w) es s"

text \<open>
  \<^verbatim>\<open>POS_X: {coords.x.toString().padStart(4, '0')}\<close>,
  \<^verbatim>\<open>POS_Y: {coords.y.toString().padStart(4, '0')}\<close> and \<^verbatim>\<open>{time}\<close>.
\<close>

definition HUD_pos_x :: "HUD_state \<Rightarrow> string" where
  "HUD_pos_x s = ''POS_X: '' @ padStart 4 ''0'' (toString (fst (coords s)))"

definition HUD_pos_y :: "HUD_state \<Rightarrow> string" where
  "HUD_pos_y s = ''POS_Y: '' @ padStart 4 ''0'' (toString (snd (coords s)))"

definition HUD_clock :: "HUD_state \<Rightarrow> string" where
  "HUD_clock s = time s"

text \<open>
  The HUD is the only component of the page that registers a timer or a listener, so
  while it is mounted the window is the freshly loaded one after the effect has run.
\<close>

definition HUD_window :: window where
  "HUD_window = snd (HUD_effect window_load)"

definition HUD_timer :: nat where
  "HUD_timer = fst (HUD_effect window_load)"

fun decimal :: "nat \<Rightarrow> string \<Rightarrow> nat" where
  "decimal acc [] = acc"
| "decimal acc (c # cs) = decimal (10 * acc + (of_char c - 48)) cs"

section \<open>Gallery: viewport reveal\<close>

text \<open>
  The literal list of image records of \<^verbatim>\<open>Gallery\<close>; the field \<^verbatim>\<open>size\<close> of the
  source is \<open>size_tag\<close> here.
\<close>

record image =
  url :: string
  title :: string
  meta :: string
  size_tag :: string
  parallax :: real

definition images :: "image list" where
  "images =
    [\<lparr>url = ''https://images.unsplash.com/photo-1493246507139-91e8fad9978e?auto=format&fit=crop&q=80&w=800'',
      title = ''Alpine Peak'', meta = ''1/2000s f/4.0 ISO 200'', size_tag = ''large'', parallax = -50\<rparr>,
     \<lparr>url = ''https://images.unsplash.com/photo-1464822759023-fed622ff2c3b?auto=format&fit=crop&q=80&w=800'',
      title = ''Mist Valley'', meta = ''1/500s f/2.8 ISO 400'', size_tag = ''small'', parallax = 80\<rparr>,
     \<lparr>url = ''https://images.unsplash.com/photo-1501785888041-af3ef285b470?auto=format&fit=crop&q=80&w=800'',
      title = ''Azure Lake'', meta = ''1/1000s f/5.6 ISO 100'', size_tag = ''small'', parallax = -30\<rparr>,
     \<lparr>url = ''https://images.unsplash.com/photo-1470770841072-f978cf4d019e?auto=format&fit=crop&q=80&w=800'',
      title = ''Golden Hour'', meta = ''1/250s f/1.8 ISO 800'', size_tag = ''large'', parallax = 120\<rparr>,
     \<lparr>url = ''https://images.unsplash.com/photo-1441974231531-c6227db76b6e?auto=format&fit=crop&q=80&w=800'',
      title = ''Deep Forest'', meta = ''1/60s f/8.0 ISO 1600'', size_tag = ''small'', parallax = -60\<rparr>,
     \<lparr>url = ''https://images.unsplash.com/photo-1500382017468-9049fed747ef?auto=format&fit=crop&q=80&w=800'',
      title = ''Open Field'', meta = ''1/4000s f/2.0 ISO 50'', size_tag = ''medium'', parallax = 40\<rparr>]"

text \<open>
  Modelled from the spec: the viewport feature of the animation library (not in the
  sources) behind \<^verbatim>\<open>whileInView\<close> and \<^verbatim>\<open>viewport={{ once, margin }}\<close>. The spec
  describes a reveal that is triggered when the element enters the viewport and that,
  with \<^verbatim>\<open>once\<close>, is never replayed. Per element the library keeps whether it is in
  view, whether it has ever entered, and whether the \<^verbatim>\<open>whileInView\<close> target is
  active. An intersection update that changes nothing is ignored; with \<^verbatim>\<open>once\<close> a
  leave after the first entry is ignored too; otherwise the \<^verbatim>\<open>whileInView\<close> target is
  switched on or off. Switching it on plays the transition from \<^verbatim>\<open>initial\<close> to
  \<^verbatim>\<open>whileInView\<close> (the second component of the result); switching it off returns the
  element to \<^verbatim>\<open>initial\<close>. The margin only moves the edge at which the browser reports
  an intersection.
\<close>

record viewport_options =
  once :: bool
  margin :: string

record inview_state =
  isInView :: bool
  hasEnteredView :: bool
  whileInView_active :: bool

definition inview_mount :: inview_state where
  "inview_mount = \<lparr>isInView = False, hasEnteredView = False, whileInView_active = False\<rparr>"

definition setActive :: "bool \<Rightarrow> inview_state \<Rightarrow> inview_state \<times> bool" where
  "setActive isActive st =
     (if whileInView_active st = isActive then (st, False)
      else (st\<lparr>whileInView_active := isActive\<rparr>, isActive))"

definition onIntersectionUpdate :: "viewport_options \<Rightarrow> bool \<Rightarrow> inview_state \<Rightarrow> inview_state \<times> bool" where
  "onIntersectionUpdate opts isIntersecting st =
     (if isInView st = isIntersecting then (st, False)
      else if once opts \<and> \<not> isIntersecting \<and> hasEnteredView st
        then (st\<lparr>isInView := isIntersecting\<rparr>, False)
      else if isIntersecting
        then setActive isIntersecting (st\<lparr>isInView := isIntersecting, hasEnteredView := True\<rparr>)
      else setActive isIntersecting (st\<lparr>isInView := isIntersecting\<rparr>))"

text \<open>
  Each image card of the gallery:
  \<^verbatim>\<open>initial={{ opacity: 0, scale: 0.95 }} whileInView={{ opacity: 1, scale: 1 }}\<close>
  \<^verbatim>\<open>viewport={{ once: true, margin: "-10%" }}\<close>
  The gallery keeps one viewport state per image, in the order of the list. An
  intersection update for image \<open>i\<close> goes to that image; \<open>Gallery_played i\<close> says
  whether the step plays the reveal of image \<open>i\<close>, and \<open>Gallery_reveals i\<close> counts
  these steps along a run.
\<close>

definition Gallery_viewport :: viewport_options where
  "Gallery_viewport = \<lparr>once = True, margin = ''-10%''\<rparr>"

definition Gallery_mount :: "inview_state list" where
  "Gallery_mount = map (\<lambda>img. inview_mount) images"

fun Gallery_step :: "inview_state list \<Rightarrow> event \<Rightarrow> inview_state list" where
  "Gallery_step s (Intersection i isIntersecting) =
     (if i < length s then s[i := fst (onIntersectionUpdate Gallery_viewport isIntersecting (s ! i))]
      else s)"
| "Gallery_step s _ = s"

fun Gallery_played :: "nat \<Rightarrow> inview_state list \<Rightarrow> event \<Rightarrow> bool" where
  "Gallery_played i s (Intersection j isIntersecting) =
     (j = i \<and> i < length s \<and> snd (onIntersectionUpdate Gallery_viewport isIntersecting (s ! i)))"
| "Gallery_played i s _ = False"

fun Gallery_run :: "inview_state list \<Rightarrow> event list \<Rightarrow> inview_state list" where
  "Gallery_run s [] = s"
| "Gallery_run s (e # es) = Gallery_run (Gallery_step s e) es"

fun Gallery_reveals :: "nat \<Rightarrow> inview_state list \<Rightarrow> event list \<Rightarrow> nat" where
  "Gallery_reveals i s [] = 0"
| "Gallery_reveals i s (e # es) =
     (if Gallery_played i s e then 1 else 0) + Gallery_reveals i (Gallery_step s e) es"

text \<open>An image is revealed when its \<^verbatim>\<open>whileInView\<close> target (opacity 1, scale 1) is active.\<close>

definition revealed :: "inview_state \<Rightarrow> bool" where
  "revealed st = (whileInView_active st \<and> hasEnteredView st)"

section \<open>BackgroundElements: ambient motifs\<close>

text \<open>
  A position is a percentage (the source appends \<^verbatim>\<open>"%"\<close> to a number). A motif has
  its initial offsets, the key frames it travels through and the duration of one loop.
  \<^verbatim>\<open>Math.random()\<close> is made explicit: a render reads the draws of a source \<open>draws\<close> one
  after the other, and \<open>k\<close> counts the draws already made.
\<close>

datatype offset = Percent real

record motif =
  initial_x :: offset
  initial_y :: offset
  animate_x :: "offset list"
  animate_y :: "offset list"
  transition_duration :: real

definition Math_random :: "(nat \<Rightarrow> real) \<Rightarrow> nat \<Rightarrow> real \<times> nat" where
  "Math_random draws k = (draws k, Suc k)"

text \<open>
  \<^verbatim>\<open>[...Array(3)].map((_, i) => ...)\<close> with
  \<^verbatim>\<open>x: (i * 30 + 10) + "%", y: (i * 20 + 20) + "%"\<close>, \<^verbatim>\<open>duration: 25 + i * 5\<close>;
  \<^verbatim>\<open>[...Array(4)].map((_, i) => ...)\<close> with
  \<^verbatim>\<open>x: (i * 25 + 5) + "%", y: (i * 15 + 10) + "%"\<close>, \<^verbatim>\<open>duration: 20 + i * 4\<close>;
  \<^verbatim>\<open>[...Array(4)].map((_, i) => ...)\<close> with
  \<^verbatim>\<open>x: i % 2 === 0 ? "-10%" : "110%", y: Math.random() * 100 + "%"\<close>,
  \<^verbatim>\<open>animate x: i % 2 === 0 ? "110%" : "-10%"\<close>, \<^verbatim>\<open>duration: 30 + Math.random() * 20\<close>.
  A data string draws twice: first for its vertical offset, then for its duration.
\<close>

definition aperture :: "nat \<Rightarrow> motif" where
  "aperture i =
     \<lparr>initial_x = Percent (real i * 30 + 10),
      initial_y = Percent (real i * 20 + 20),
      animate_x = [Percent (real i * 30 + 10), Percent (real i * 30 + 40)],
      animate_y = [Percent (real i * 20 + 20), Percent (real i * 20 + 50)],
      transition_duration = 25 + real i * 5\<rparr>"

definition focus :: "nat \<Rightarrow> motif" where
  "focus i =
     \<lparr>initial_x = Percent (real i * 25 + 5),
      initial_y = Percent (real i * 15 + 10),
      animate_x = [Percent (real i * 25 + 5), Percent (real i * 25 + 25)],
      animate_y = [Percent (real i * 15 + 10), Percent (real i * 15 + 30)],
      transition_duration = 20 + real i * 4\<rparr>"

definition data :: "(nat \<Rightarrow> real) \<Rightarrow> nat \<Rightarrow> nat \<Rightarrow> motif \<times> nat" where
  "data draws i k =
     (case Math_random draws k of (r1, k1) \<Rightarrow>
      case Math_random draws k1 of (r2, k2) \<Rightarrow>
        (\<lparr>initial_x = (if i mod 2 = 0 then Percent (-10) else Percent 110),
          initial_y = Percent (r1 * 100),
          animate_x = [if i mod 2 = 0 then Percent 110 else Percent (-10)],
          animate_y = [],
          transition_duration = 30 + r2 * 20\<rparr>, k2))"

fun data_group :: "(nat \<Rightarrow> real) \<Rightarrow> nat list \<Rightarrow> nat \<Rightarrow> motif list" where
  "data_group draws [] k = []"
| "data_group draws (i # is) k = (case data draws i k of (m, k1) \<Rightarrow> m # data_group draws is k1)"

record background =
  apertures :: "motif list"
  reticles :: "motif list"
  strings :: "motif list"

definition BackgroundElements :: "(nat \<Rightarrow> real) \<Rightarrow> background" where
  "BackgroundElements draws =
     \<lparr>apertures = map aperture [0..<3],
      reticles = map focus [0..<4],
      strings = data_group draws [0..<4] 0\<rparr>"

section \<open>CameraStage: spring smoothing\<close>

text \<open>
  Modelled from the spec: \<^verbatim>\<open>useSpring\<close> of the animation library (not in the
  sources). The spec calls it a damped second-order filter whose output approaches the
  target gradually. For unit mass (the source sets none) the output \<open>x\<close> obeys
  \<open>x'' = - stiffness * (x - target) - damping * x'\<close>. \<open>spring_value\<close> is the solution
  that starts at \<open>x0\<close> with velocity \<open>v0\<close>, in its three regimes by the sign of
  \<open>damping\<^sup>2 - 4 * stiffness\<close>: overdamped, critically damped and underdamped.
\<close>

record spring_options =
  stiffness :: real
  damping :: real

definition spring_overdamped :: "real \<Rightarrow> real \<Rightarrow> real \<Rightarrow> real \<Rightarrow> real \<Rightarrow> real \<Rightarrow> real" where
  "spring_overdamped r1 r2 target x0 v0 t =
     target + (v0 - r2 * (x0 - target)) / (r1 - r2) * exp (r1 * t)
            + (r1 * (x0 - target) - v0) / (r1 - r2) * exp (r2 * t)"

definition spring_overdamped_velocity :: "real \<Rightarrow> real \<Rightarrow> real \<Rightarrow> real \<Rightarrow> real \<Rightarrow> real \<Rightarrow> real" where
  "spring_overdamped_velocity r1 r2 target x0 v0 t =
     (v0 - r2 * (x0 - target)) / (r1 - r2) * (r1 * exp (r1 * t))
     + (r1 * (x0 - target) - v0) / (r1 - r2) * (r2 * exp (r2 * t))"

definition spring_critical :: "real \<Rightarrow> real \<Rightarrow> real \<Rightarrow> real \<Rightarrow> real \<Rightarrow> real" where
  "spring_critical r target x0 v0 t =
     target + ((x0 - target) + (v0 - r * (x0 - target)) * t) * exp (r * t)"

definition spring_underdamped :: "real \<Rightarrow> real \<Rightarrow> real \<Rightarrow> real \<Rightarrow> real \<Rightarrow> real \<Rightarrow> real" where
  "spring_underdamped r w target x0 v0 t =
     target + exp (r * t) * ((x0 - target) * cos (w * t) + (v0 - r * (x0 - target)) / w * sin (w * t))"

definition spring_value :: "spring_options \<Rightarrow> real \<Rightarrow> real \<Rightarrow> real \<Rightarrow> real \<Rightarrow> real" where
  "spring_value opts target x0 v0 t =
     (let k = stiffness opts; c = damping opts; D = c\<^sup>2 - 4 * k in
      if 0 < D then spring_overdamped ((- c + sqrt D) / 2) ((- c - sqrt D) / 2) target x0 v0 t
      else if D = 0 then spring_critical (- c / 2) target x0 v0 t
      else spring_underdamped (- c / 2) (sqrt (- D) / 2) target x0 v0 t)"

text \<open>
  \<^verbatim>\<open>const springScale = useSpring(scale, { stiffness: 100, damping: 30 });\<close>
  \<^verbatim>\<open>const springRotate = useSpring(rotate, { stiffness: 100, damping: 30 });\<close>
  The smoothed value at time \<open>t\<close> after the scroll progress came to rest, when the
  spring was at \<open>x0\<close> with velocity \<open>v0\<close>.
\<close>

definition CameraStage_spring :: spring_options where
  "CameraStage_spring = \<lparr>stiffness = 100, damping = 30\<rparr>"

definition springScale :: "real \<Rightarrow> real \<Rightarrow> real \<Rightarrow> real \<Rightarrow> real" where
  "springScale scrollYProgress x0 v0 t =
     spring_value CameraStage_spring (CameraStage_scale scrollYProgress) x0 v0 t"

definition springRotate :: "real \<Rightarrow> real \<Rightarrow> real \<Rightarrow> real \<Rightarrow> real" where
  "springRotate scrollYProgress x0 v0 t =
     spring_value CameraStage_spring (CameraStage_rotate scrollYProgress) x0 v0 t"

section \<open>Properties of CameraStage\<close>

lemma CameraStage_scale_linear:
  "0 \<le> p \<Longrightarrow> p \<le> 1 \<Longrightarrow> CameraStage_scale p = 1 + (0.8 - 1) * p"
  by (simp add: CameraStage_scale_def useTransform_def clamp_def progress_def mixNumber_def)

lemma CameraStage_rotate_linear:
  "0 \<le> p \<Longrightarrow> p \<le> 1 \<Longrightarrow> CameraStage_rotate p = 0 + (-5 - 0) * p"
  by (simp add: CameraStage_rotate_def useTransform_def clamp_def progress_def mixNumber_def)

lemma CameraStage_y_linear:
  "0 \<le> p \<Longrightarrow> p \<le> 1 \<Longrightarrow> CameraStage_y p = 0 + (-50 - 0) * p"
  by (simp add: CameraStage_y_def useTransform_def clamp_def progress_def mixNumber_def)

lemma CameraStage_opacity_hold:
  "0 \<le> p \<Longrightarrow> p \<le> 0.8 \<Longrightarrow> CameraStage_opacity p = 1"
  by (simp add: CameraStage_opacity_def useTransform_def clamp_def progress_def mixNumber_def)

lemma CameraStage_opacity_fade:
  "0.8 \<le> p \<Longrightarrow> p \<le> 1 \<Longrightarrow> CameraStage_opacity p = 1 + (0 - 1) * ((p - 0.8) / (1 - 0.8))"
  by (simp add: CameraStage_opacity_def useTransform_def clamp_def progress_def mixNumber_def)

text \<open>
  C1. For every scroll progress \<open>p\<close> in \<open>[0,1]\<close> the four derived parameters are the
  piecewise-linear interpolations over the breakpoints of the source: scale runs
  linearly from 1 to 0.8, rotation from 0 to -5, the vertical offset from 0 to -50,
  and opacity is 1 up to 0.8 and then falls linearly to 0 at 1.
\<close>

theorem CameraStage_piecewise_linear:
  assumes "0 \<le> p" and "p \<le> 1"
  shows "CameraStage_scale p = 1 + (0.8 - 1) * p
       \<and> CameraStage_rotate p = 0 + (-5 - 0) * p
       \<and> CameraStage_y p = 0 + (-50 - 0) * p
       \<and> CameraStage_opacity p =
           (if p \<le> 0.8 then 1 else 1 + (0 - 1) * ((p - 0.8) / (1 - 0.8)))
       \<and> CameraStage_scale 0 = 1 \<and> CameraStage_scale 1 = 0.8
       \<and> CameraStage_rotate 0 = 0 \<and> CameraStage_rotate 1 = -5
       \<and> CameraStage_y 0 = 0 \<and> CameraStage_y 1 = -50
       \<and> CameraStage_opacity 0 = 1 \<and> CameraStage_opacity 0.8 = 1
       \<and> CameraStage_opacity 1 = 0"
proof -
  have op: "CameraStage_opacity p =
      (if p \<le> 0.8 then 1 else 1 + (0 - 1) * ((p - 0.8) / (1 - 0.8)))"
  proof (cases "p \<le> 0.8")
    case True
    with assms show ?thesis by (simp add: CameraStage_opacity_hold)
  next
    case False
    then have "0.8 \<le> p" by simp
    from CameraStage_opacity_fade [OF this assms(2)] False show ?thesis by simp
  qed
  have ends: "CameraStage_scale 0 = 1" "CameraStage_scale 1 = 0.8"
    "CameraStage_rotate 0 = 0" "CameraStage_rotate 1 = -5"
    "CameraStage_y 0 = 0" "CameraStage_y 1 = -50"
    "CameraStage_opacity 0 = 1" "CameraStage_opacity 0.8 = 1" "CameraStage_opacity 1 = 0"
    by (simp_all add: CameraStage_scale_def CameraStage_rotate_def CameraStage_y_def
        CameraStage_opacity_def useTransform_def clamp_def progress_def mixNumber_def)
  from assms op ends show ?thesis
    by (simp add: CameraStage_scale_linear CameraStage_rotate_linear CameraStage_y_linear)
qed

theorem CameraStage_piecewise_linear_witness:
  "(0::real) \<le> 0.9 \<and> (0.9::real) \<le> 1
   \<and> CameraStage_scale 0.9 = 0.82 \<and> CameraStage_rotate 0.9 = -4.5
   \<and> CameraStage_y 0.9 = -45 \<and> CameraStage_opacity 0.9 = 0.5"
  using CameraStage_piecewise_linear [of "0.9"] by simp

section \<open>Properties of FlashIntro\<close>

lemma motion_frame_completed:
  "completed st \<Longrightarrow> motion_frame m dt st = (st1, fired) \<Longrightarrow> completed st1 \<and> \<not> fired"
  by (auto simp: motion_frame_def Let_def)

lemma motion_frame_fired:
  "motion_frame m dt st = (st1, True) \<Longrightarrow> completed st1"
  by (auto simp: motion_frame_def Let_def split: if_splits)

lemma FlashIntro_calls_completed:
  "completed st \<Longrightarrow> FlashIntro_calls st dts = 0"
proof (induction dts arbitrary: st)
  case Nil
  then show ?case by simp
next
  case (Cons dt dts)
  obtain st1 fired where mf: "motion_frame FlashIntro dt st = (st1, fired)"
    by (cases "motion_frame FlashIntro dt st")
  from motion_frame_completed [OF Cons.prems mf] Cons.IH [of st1] mf show ?case by simp
qed

lemma FlashIntro_calls_pending:
  "\<not> completed st \<Longrightarrow> elapsed st < 2 \<Longrightarrow> \<forall>dt\<in>set dts. 0 \<le> dt \<Longrightarrow>
   FlashIntro_calls st dts = (if 2 \<le> elapsed st + sum_list dts then 1 else 0)"
proof (induction dts arbitrary: st)
  case Nil
  then show ?case by simp
next
  case (Cons dt dts)
  obtain st1 fired where mf: "motion_frame FlashIntro dt st = (st1, fired)"
    by (cases "motion_frame FlashIntro dt st")
  have nonneg: "0 \<le> dt" "\<forall>d\<in>set dts. 0 \<le> d" "0 \<le> sum_list dts"
    using Cons.prems(3) by (auto intro: sum_list_nonneg)
  show ?case
  proof (cases "2 \<le> elapsed st + dt")
    case True
    with mf Cons.prems(1) have "fired" "completed st1"
      by (auto simp: motion_frame_def FlashIntro_def Let_def)
    with mf True nonneg show ?thesis
      by (simp add: FlashIntro_calls_completed)
  next
    case False
    with mf Cons.prems(1) have st1: "\<not> fired" "\<not> completed st1" "elapsed st1 = elapsed st + dt"
      by (auto simp: motion_frame_def FlashIntro_def Let_def)
    with False have "elapsed st1 < 2" by simp
    from Cons.IH [OF st1(2) this nonneg(2)] mf st1 show ?thesis
      by (simp add: add.assoc)
  qed
qed

lemma FlashIntro_calls_le_1: "FlashIntro_calls st dts \<le> 1"
proof (induction dts arbitrary: st)
  case Nil
  then show ?case by simp
next
  case (Cons dt dts)
  obtain st1 fired where mf: "motion_frame FlashIntro dt st = (st1, fired)"
    by (cases "motion_frame FlashIntro dt st")
  show ?case
  proof (cases fired)
    case True
    with mf have "completed st1" by (simp add: motion_frame_fired)
    with mf True show ?thesis
      by (simp add: FlashIntro_calls_completed)
  next
    case False
    with mf Cons.IH [of st1] show ?thesis by simp
  qed
qed

text \<open>
  C4. At mount FlashIntro is a full-screen white layer (\<^verbatim>\<open>fixed inset-0 bg-white\<close>) of
  opacity 1. Its opacity stays 1 for the whole delay of 0.5 s, follows the easing curve
  during the 1.5 s after it, and is 0 from 2 s on. Over any sequence of frames
  \<^verbatim>\<open>onComplete\<close> is invoked at most once, and over frames of non-negative length it
  has been invoked exactly once as soon as 2 s have passed since mount and not at all
  before.
\<close>

theorem FlashIntro_contract:
  "motion_opacity curve FlashIntro 0 = 1
   \<and> ''fixed'' \<in> set (className FlashIntro) \<and> ''inset-0'' \<in> set (className FlashIntro)
   \<and> ''bg-white'' \<in> set (className FlashIntro)
   \<and> (t \<le> 0.5 \<longrightarrow> motion_opacity curve FlashIntro t = 1)
   \<and> (0.5 < t \<and> t < 2 \<longrightarrow>
        motion_opacity curve FlashIntro t = 1 - curve ((t - 0.5) / 1.5))
   \<and> (2 \<le> t \<longrightarrow> motion_opacity curve FlashIntro t = 0)
   \<and> delay FlashIntro + duration FlashIntro = 2
   \<and> FlashIntro_calls motion_mount dts \<le> 1
   \<and> ((\<forall>dt\<in>set dts. 0 \<le> dt) \<longrightarrow>
        FlashIntro_calls motion_mount dts = (if 2 \<le> sum_list dts then 1 else 0))"
proof -
  have a: "(\<forall>dt\<in>set dts. 0 \<le> dt) \<longrightarrow>
        FlashIntro_calls motion_mount dts = (if 2 \<le> sum_list dts then 1 else 0)"
    using FlashIntro_calls_pending [of motion_mount dts] by (simp add: motion_mount_def)
  have b: "FlashIntro_calls motion_mount dts \<le> 1" by (rule FlashIntro_calls_le_1)
  have c: "motion_opacity curve FlashIntro 0 = 1"
    "''fixed'' \<in> set (className FlashIntro)" "''inset-0'' \<in> set (className FlashIntro)"
    "''bg-white'' \<in> set (className FlashIntro)"
    "t \<le> 0.5 \<longrightarrow> motion_opacity curve FlashIntro t = 1"
    "0.5 < t \<and> t < 2 \<longrightarrow> motion_opacity curve FlashIntro t = 1 - curve ((t - 0.5) / 1.5)"
    "2 \<le> t \<longrightarrow> motion_opacity curve FlashIntro t = 0"
    "delay FlashIntro + duration FlashIntro = 2"
    by (simp_all add: motion_opacity_def FlashIntro_def mixNumber_def)
  from a b c show ?thesis by blast
qed

theorem FlashIntro_contract_witness:
  "FlashIntro_calls motion_mount [0.4, 0.9] = 0
   \<and> FlashIntro_calls motion_mount [0.4, 0.9, 0.8] = 1
   \<and> FlashIntro_calls motion_mount [0.4, 0.9, 0.8, 0.3] = 1
   \<and> motion_opacity (\<lambda>x. x) FlashIntro 0.5 = 1
   \<and> motion_opacity (\<lambda>x. x) FlashIntro 2 = 0"
  using FlashIntro_contract [of "\<lambda>x. x" "0.5" "[0.4, 0.9]"]
    FlashIntro_contract [of "\<lambda>x. x" 2 "[0.4, 0.9, 0.8]"]
    FlashIntro_contract [of "\<lambda>x. x" 2 "[0.4, 0.9, 0.8, 0.3]"]
  by simp

section \<open>Properties of App\<close>

lemma App_step_loaded: "isLoaded s \<Longrightarrow> isLoaded (App_step s e)"
  by (cases e) simp_all

lemma App_run_loaded: "isLoaded s \<Longrightarrow> isLoaded (App_run s es)"
  by (induction es arbitrary: s) (simp_all add: App_step_loaded)

lemma App_reverts_0: "App_reverts s es = 0"
  by (induction es arbitrary: s) (simp_all add: App_step_loaded)

lemma App_flips_loaded: "isLoaded s \<Longrightarrow> App_flips s es = 0"
  by (induction es arbitrary: s) (simp_all add: App_step_loaded)

lemma App_flips_le_1: "App_flips s es \<le> 1"
proof (induction es arbitrary: s)
  case Nil
  then show ?case by simp
next
  case (Cons e es)
  show ?case
  proof (cases "isLoaded (App_step s e)")
    case True
    then show ?thesis by (simp add: App_flips_loaded)
  next
    case False
    with Cons.IH [of "App_step s e"] show ?thesis by simp
  qed
qed

lemma App_flip_cause:
  "\<not> isLoaded s \<Longrightarrow> isLoaded (App_step s e) \<Longrightarrow>
   \<exists>dt. e = Frame dt \<and> snd (motion_frame FlashIntro dt (intro s))"
  by (cases e) (auto simp: setIsLoaded_def split: prod.splits if_splits)

lemma App_flips_pending:
  "\<not> isLoaded s \<Longrightarrow> \<not> completed (intro s) \<Longrightarrow> elapsed (intro s) < 2 \<Longrightarrow>
   \<forall>e\<in>set es. 0 \<le> frame_time e \<Longrightarrow>
   App_flips s es = (if 2 \<le> elapsed (intro s) + sum_list (map frame_time es) then 1 else 0)
   \<and> isLoaded (App_run s es) = (2 \<le> elapsed (intro s) + sum_list (map frame_time es))"
proof (induction es arbitrary: s)
  case Nil
  then show ?case by simp
next
  case (Cons e es)
  have nn: "0 \<le> frame_time e" "\<forall>x\<in>set es. 0 \<le> frame_time x"
    "0 \<le> sum_list (map frame_time es)"
    using Cons.prems(4) by (auto intro!: sum_list_nonneg)
  show ?case
  proof (cases "\<exists>dt. e = Frame dt")
    case False
    then have same: "App_step s e = s" "frame_time e = 0" by (cases e; simp)+
    from Cons.IH [OF Cons.prems(1,2,3) nn(2)] Cons.prems(1) same show ?thesis by simp
  next
    case True
    then obtain dt where e: "e = Frame dt" by blast
    show ?thesis
    proof (cases "2 \<le> elapsed (intro s) + dt")
      case True
      with e Cons.prems(1,2) have "isLoaded (App_step s e)"
        by (simp add: motion_frame_def FlashIntro_def Let_def setIsLoaded_def)
      with True e nn Cons.prems(1) show ?thesis
        by (simp add: App_flips_loaded App_run_loaded)
    next
      case False
      with e Cons.prems(1,2) have s1: "\<not> isLoaded (App_step s e)"
        "\<not> completed (intro (App_step s e))"
        "elapsed (intro (App_step s e)) = elapsed (intro s) + dt"
        by (simp_all add: motion_frame_def FlashIntro_def Let_def setIsLoaded_def)
      with False have "elapsed (intro (App_step s e)) < 2" by simp
      from Cons.IH [OF s1(1,2) this nn(2)] s1 e Cons.prems(1) show ?thesis
        by (simp add: add.assoc del: App_step.simps)
    qed
  qed
qed

text \<open>
  C2. The flag is false at mount. Along every run it goes from false to true at most
  once and never from true to false, and once true it stays true. A step sets it only
  if that step is a frame on which FlashIntro's completion callback fires. When the
  frames have non-negative length, the flag has been set exactly once as soon as the
  2 s of the intro have passed, and it is then true.
\<close>

theorem LoadedFlag_once:
  "\<not> isLoaded App_mount
   \<and> App_flips App_mount es \<le> 1
   \<and> App_reverts App_mount es = 0
   \<and> (isLoaded s \<longrightarrow> isLoaded (App_run s es))
   \<and> (\<not> isLoaded s \<and> isLoaded (App_step s e) \<longrightarrow>
        (\<exists>dt. e = Frame dt \<and> snd (motion_frame FlashIntro dt (intro s))))
   \<and> ((\<forall>e\<in>set es. 0 \<le> frame_time e) \<longrightarrow>
        App_flips App_mount es = (if 2 \<le> sum_list (map frame_time es) then 1 else 0)
        \<and> isLoaded (App_run App_mount es) = (2 \<le> sum_list (map frame_time es)))"
proof -
  have a: "(\<forall>e\<in>set es. 0 \<le> frame_time e) \<longrightarrow>
        App_flips App_mount es = (if 2 \<le> sum_list (map frame_time es) then 1 else 0)
        \<and> isLoaded (App_run App_mount es) = (2 \<le> sum_list (map frame_time es))"
    using App_flips_pending [of App_mount es] by (simp add: App_mount_def motion_mount_def)
  have b: "\<not> isLoaded App_mount" by (simp add: App_mount_def)
  from a b App_flips_le_1 [of App_mount es] App_reverts_0 [of App_mount es]
    App_run_loaded [of s es] App_flip_cause [of s e]
  show ?thesis by blast
qed

theorem LoadedFlag_once_witness:
  "App_flips App_mount [Frame 0.7, MouseMove 3 4, Frame 1.2, Frame 0.3, TimerFire 0 5, Frame 1] = 1
   \<and> isLoaded (App_run App_mount [Frame 0.7, MouseMove 3 4, Frame 1.2, Frame 0.3, TimerFire 0 5, Frame 1])
   \<and> \<not> isLoaded (App_run App_mount [Frame 0.7, MouseMove 3 4, Frame 1.2])
   \<and> isLoaded (App_step (App_run App_mount [Frame 0.7, MouseMove 3 4, Frame 1.2]) (Frame 0.3))
   \<and> snd (motion_frame FlashIntro 0.3 (intro (App_run App_mount [Frame 0.7, MouseMove 3 4, Frame 1.2])))"
  using LoadedFlag_once [of "[Frame 0.7, MouseMove 3 4, Frame 1.2, Frame 0.3, TimerFire 0 5, Frame 1]"
      "App_run App_mount [Frame 0.7, MouseMove 3 4, Frame 1.2]" "Frame 0.3"]
  by (simp add: App_mount_def motion_mount_def motion_frame_def FlashIntro_def Let_def setIsLoaded_def)

lemma subtree_FlashIntro:
  "map classes (subtree FlashIntro_render) =
     [[''fixed'', ''inset-0'', ''z-[100]'', ''bg-white'', ''pointer-events-none'',
       ''flex'', ''items-center'', ''justify-center''],
      [],
      [''w-24'', ''h-24'', ''text-black'', ''fill-black'']]"
  by (simp add: FlashIntro_render_def FlashIntro_def)

lemma FlashIntro_no_auto:
  "\<forall>e\<in>set (subtree FlashIntro_render). ''pointer-events-auto'' \<notin> set (classes e)"
proof -
  have "\<forall>cs\<in>set (map classes (subtree FlashIntro_render)). ''pointer-events-auto'' \<notin> set cs"
    unfolding subtree_FlashIntro by simp
  then show ?thesis by simp
qed

lemma FlashIntro_no_target: "\<not> pointer_targets True FlashIntro_render"
  by (simp add: FlashIntro_render_def FlashIntro_def)

text \<open>
  The test is not empty: a full-screen layer with \<^verbatim>\<open>pointer-events-none\<close> whose child
  carries \<^verbatim>\<open>pointer-events-auto\<close>, as the bars of the HUD do, can be a target.
\<close>

lemma pointer_targets_reenabled:
  "pointer_targets True
     (Element ''div'' [''fixed'', ''inset-0'', ''pointer-events-none'']
        [Element ''div'' [''glass'', ''pointer-events-auto''] []])"
  by simp

text \<open>
  C5. In every state of the root the FlashIntro layer is transparent to the pointer:
  its root carries \<^verbatim>\<open>pointer-events-none\<close>, no element under it carries
  \<^verbatim>\<open>pointer-events-auto\<close>, and so no element of the overlay can be the target of a
  pointer event. The layer is rendered exactly while the flag is false. The content
  region with its six sections is in the tree in both states, with the same children;
  the flag only picks between the classes \<^verbatim>\<open>opacity-0\<close> and \<^verbatim>\<open>opacity-100\<close>.
\<close>

theorem intro_never_blocks:
  "''pointer-events-none'' \<in> set (classes FlashIntro_render)
   \<and> (\<forall>e\<in>set (subtree FlashIntro_render). ''pointer-events-auto'' \<notin> set (classes e))
   \<and> \<not> pointer_targets True FlashIntro_render
   \<and> (FlashIntro_render \<in> set (children (App_render s))) = (\<not> isLoaded s)
   \<and> App_content (isLoaded s) \<in> set (children (App_render s))
   \<and> map tag (children (App_content (isLoaded s))) =
       [''CameraStage'', ''AboutSection'', ''SpecsSection'', ''Gallery'', ''ContactSection'', ''footer'']
   \<and> children (App_content (isLoaded s)) = children (App_content True)
   \<and> classes (App_content (isLoaded s)) =
       [''transition-opacity'', ''duration-1000'', (if isLoaded s then ''opacity-100'' else ''opacity-0'')]"
proof -
  have root: "''pointer-events-none'' \<in> set (classes FlashIntro_render)"
    by (simp add: FlashIntro_render_def FlashIntro_def)
  have tree: "(FlashIntro_render \<in> set (children (App_render s))) = (\<not> isLoaded s)"
    "App_content (isLoaded s) \<in> set (children (App_render s))"
    by (simp_all add: App_render_def App_content_def FlashIntro_render_def)
  have content: "map tag (children (App_content (isLoaded s))) =
       [''CameraStage'', ''AboutSection'', ''SpecsSection'', ''Gallery'', ''ContactSection'', ''footer'']"
    "children (App_content (isLoaded s)) = children (App_content True)"
    "classes (App_content (isLoaded s)) =
       [''transition-opacity'', ''duration-1000'', (if isLoaded s then ''opacity-100'' else ''opacity-0'')]"
    by (simp_all add: App_content_def)
  from root FlashIntro_no_auto FlashIntro_no_target tree content show ?thesis by blast
qed

theorem intro_never_blocks_witness:
  "FlashIntro_render \<in> set (children (App_render (App_run App_mount [Frame 1, MouseMove 5 6])))
   \<and> ''pointer-events-none'' \<in> set (classes FlashIntro_render)
   \<and> \<not> pointer_targets True FlashIntro_render
   \<and> ''pointer-events-auto'' \<notin> set (classes (subtree FlashIntro_render ! 2))
   \<and> \<not> isLoaded (App_run App_mount [Frame 1, MouseMove 5 6])
   \<and> map tag (children (App_content (isLoaded (App_run App_mount [Frame 1, MouseMove 5 6])))) =
       [''CameraStage'', ''AboutSection'', ''SpecsSection'', ''Gallery'', ''ContactSection'', ''footer'']"
proof -
  have r: "\<not> isLoaded (App_run App_mount [Frame 1, MouseMove 5 6])"
    by (simp add: App_mount_def motion_mount_def motion_frame_def FlashIntro_def Let_def)
  have m: "subtree FlashIntro_render ! 2 \<in> set (subtree FlashIntro_render)"
    by (simp add: FlashIntro_render_def)
  from intro_never_blocks [of "App_run App_mount [Frame 1, MouseMove 5 6]"] r m
  show ?thesis by blast
qed

section \<open>Properties of HUD\<close>

lemma HUD_effect_load:
  "HUD_effect window_load =
     (1, \<lparr>intervals = [(1, 1000, SetTimeTick)],
          listeners = [(''mousemove'', HandleMouseMove)], next_timer = 2\<rparr>)"
  by (simp add: HUD_effect_def setInterval_def addEventListener_def window_load_def)

lemma HUD_window_eq:
  "HUD_window = \<lparr>intervals = [(1, 1000, SetTimeTick)],
          listeners = [(''mousemove'', HandleMouseMove)], next_timer = 2\<rparr>"
  by (simp add: HUD_window_def HUD_effect_load)

lemma HUD_timer_eq: "HUD_timer = 1"
  by (simp add: HUD_timer_def HUD_effect_load)

lemma HUD_event_MouseMove:
  "HUD_event f HUD_window (MouseMove a b) s = s\<lparr>coords := (a, b)\<rparr>"
  by (simp add: HUD_event_def HUD_window_eq)

lemma HUD_event_TimerFire:
  "HUD_event f HUD_window (TimerFire i t) s = (if i = HUD_timer then s\<lparr>time := f t\<rparr> else s)"
  by (simp add: HUD_event_def HUD_window_eq HUD_timer_eq)

lemma HUD_event_Frame: "HUD_event f w (Frame dt) s = s"
  by (simp add: HUD_event_def)

lemma HUD_event_Intersection: "HUD_event f w (Intersection i b) s = s"
  by (simp add: HUD_event_def)

lemma HUD_events_snoc:
  "HUD_events f w (es @ [e]) s = HUD_event f w e (HUD_events f w es s)"
  by (simp add: HUD_events_def)

lemma HUD_event_coords_other:
  "\<forall>a b. e \<noteq> MouseMove a b \<Longrightarrow> coords (HUD_event f HUD_window e s) = coords s"
  by (cases e) (simp_all add: HUD_event_TimerFire HUD_event_Frame HUD_event_Intersection)

lemma HUD_event_time_other:
  "\<forall>i t. e \<noteq> TimerFire i t \<Longrightarrow> time (HUD_event f HUD_window e s) = time s"
  by (cases e) (simp_all add: HUD_event_MouseMove HUD_event_Frame HUD_event_Intersection)

lemma HUD_events_time_other:
  "\<forall>e\<in>set es. \<forall>i t. e \<noteq> TimerFire i t \<Longrightarrow> time (HUD_events f HUD_window es s) = time s"
proof (induction es rule: rev_induct)
  case Nil
  then show ?case by (simp add: HUD_events_def)
next
  case (snoc e es)
  then show ?case by (simp add: HUD_events_snoc HUD_event_time_other)
qed

lemma digit_code: "d < 10 \<Longrightarrow> of_char (digit d) = (48 + d :: nat)"
proof -
  assume "d < 10"
  then have "d \<in> {0, 1, 2, 3, 4, 5, 6, 7, 8, 9}" by auto
  then show ?thesis by (auto simp: digit_def)
qed

lemma digit_in: "d < 10 \<Longrightarrow> digit d \<in> set ''0123456789''"
  unfolding digit_def by (rule nth_mem) simp

lemma decimal_append: "decimal acc (xs @ ys) = decimal (decimal acc xs) ys"
  by (induction xs arbitrary: acc) simp_all

lemma decimal_digits: "decimal acc (digits n) = (if n < 10 then 10 * acc + n else decimal acc (digits (n div 10)) * 10 + n mod 10)"
  by (subst digits.simps) (simp add: decimal_append digit_code)

lemma decimal_digits_val: "decimal 0 (digits n) = n"
proof (induction n rule: digits.induct)
  case (1 n)
  show ?case
  proof (cases "n < 10")
    case True
    then show ?thesis by (simp add: decimal_digits)
  next
    case False
    with 1 show ?thesis by (simp add: decimal_digits)
  qed
qed

lemma set_digits: "set (digits n) \<subseteq> set ''0123456789''"
proof (induction n rule: digits.induct)
  case (1 n)
  show ?case
  proof (cases "n < 10")
    case True
    then show ?thesis using digit_in [of n] by (subst digits.simps) simp
  next
    case False
    with 1 digit_in [of "n mod 10"] show ?thesis by (subst digits.simps) simp
  qed
qed

lemma decimal_zeros: "decimal 0 (replicate k (CHR ''0'') @ cs) = decimal 0 cs"
  by (induction k) simp_all

lemma padStart_zero:
  "padStart n ''0'' s = replicate (n - length s) (CHR ''0'') @ s"
proof -
  have "concat (replicate k ''0'') = replicate k (CHR ''0'')" for k
    by (induction k) simp_all
  then show ?thesis by (simp add: padStart_def)
qed

lemma length_padStart_zero: "n \<le> length (padStart n ''0'' s)"
  by (simp add: padStart_zero)

text \<open>
  C3 as stated fails: the handler stores \<^verbatim>\<open>clientX\<close> and \<^verbatim>\<open>clientY\<close> as they come.
  A move to \<open>(-5, 10)\<close>, which the window receives while the pointer is dragged to the
  left of the viewport, leaves a negative x coordinate, shown as \<^verbatim>\<open>POS_X: 00-5\<close>.
\<close>

theorem HUD_pointer_unclamped:
  "coords (HUD_events (\<lambda>t. ''12:00:00'') HUD_window [MouseMove (-5) 10]
       (HUD_init (\<lambda>t. ''12:00:00'') 0)) = (-5, 10)
   \<and> fst (coords (HUD_events (\<lambda>t. ''12:00:00'') HUD_window [MouseMove (-5) 10]
       (HUD_init (\<lambda>t. ''12:00:00'') 0))) < 0
   \<and> HUD_pos_x (HUD_events (\<lambda>t. ''12:00:00'') HUD_window [MouseMove (-5) 10]
       (HUD_init (\<lambda>t. ''12:00:00'') 0)) = ''POS_X: 00-5''"
  by code_simp

text \<open>
  C3, amended. The coordinates are \<open>(0, 0)\<close> before any event, those of a pointer move
  right after it, as delivered, and unchanged by any other event. Each coordinate is
  shown as its decimal string padded on the left with \<^verbatim>\<open>0\<close> to at least four
  characters. For a non-negative coordinate these are digits only and read back as
  the coordinate. A move to \<open>(512, 300)\<close> shows \<^verbatim>\<open>POS_X: 0512\<close> and \<^verbatim>\<open>POS_Y: 0300\<close>.
\<close>

theorem HUD_pointer_display:
  "coords (HUD_events f HUD_window [] (HUD_init f now)) = (0, 0)
   \<and> coords (HUD_events f HUD_window (es @ [MouseMove a b]) (HUD_init f now)) = (a, b)
   \<and> ((\<forall>a b. e \<noteq> MouseMove a b) \<longrightarrow>
        coords (HUD_events f HUD_window (es @ [e]) (HUD_init f now))
          = coords (HUD_events f HUD_window es (HUD_init f now)))
   \<and> HUD_pos_x s = ''POS_X: '' @ replicate (4 - length (toString (fst (coords s)))) (CHR ''0'')
                      @ toString (fst (coords s))
   \<and> HUD_pos_y s = ''POS_Y: '' @ replicate (4 - length (toString (snd (coords s)))) (CHR ''0'')
                      @ toString (snd (coords s))
   \<and> 4 \<le> length (padStart 4 ''0'' (toString a))
   \<and> (0 \<le> a \<longrightarrow> set (padStart 4 ''0'' (toString a)) \<subseteq> set ''0123456789''
                \<and> int (decimal 0 (padStart 4 ''0'' (toString a))) = a)
   \<and> HUD_pos_x (HUD_events f HUD_window [MouseMove 512 300] (HUD_init f now)) = ''POS_X: 0512''
   \<and> HUD_pos_y (HUD_events f HUD_window [MouseMove 512 300] (HUD_init f now)) = ''POS_Y: 0300''"
proof -
  have c1: "coords (HUD_events f HUD_window [] (HUD_init f now)) = (0, 0)"
    by (simp add: HUD_events_def HUD_init_def)
  have c2: "coords (HUD_events f HUD_window (es @ [MouseMove a b]) (HUD_init f now)) = (a, b)"
    by (simp add: HUD_events_snoc HUD_event_MouseMove)
  have c3: "(\<forall>a b. e \<noteq> MouseMove a b) \<longrightarrow>
        coords (HUD_events f HUD_window (es @ [e]) (HUD_init f now))
          = coords (HUD_events f HUD_window es (HUD_init f now))"
    by (simp add: HUD_events_snoc HUD_event_coords_other)
  have c4: "HUD_pos_x s = ''POS_X: '' @ replicate (4 - length (toString (fst (coords s)))) (CHR ''0'')
                      @ toString (fst (coords s))"
    by (simp add: HUD_pos_x_def padStart_zero)
  have c5: "HUD_pos_y s = ''POS_Y: '' @ replicate (4 - length (toString (snd (coords s)))) (CHR ''0'')
                      @ toString (snd (coords s))"
    by (simp add: HUD_pos_y_def padStart_zero)
  have c6: "4 \<le> length (padStart 4 ''0'' (toString a))"
    by (rule length_padStart_zero)
  have c7: "0 \<le> a \<longrightarrow> set (padStart 4 ''0'' (toString a)) \<subseteq> set ''0123456789''
                \<and> int (decimal 0 (padStart 4 ''0'' (toString a))) = a"
  proof
    assume a: "0 \<le> a"
    then have ts: "toString a = digits (nat a)" by (simp add: toString_def)
    have "set (padStart 4 ''0'' (toString a)) \<subseteq> set ''0123456789''"
      using set_digits [of "nat a"] by (auto simp: padStart_zero ts)
    moreover have "int (decimal 0 (padStart 4 ''0'' (toString a))) = a"
      using a by (simp add: padStart_zero ts decimal_zeros decimal_digits_val)
    ultimately show "set (padStart 4 ''0'' (toString a)) \<subseteq> set ''0123456789''
                \<and> int (decimal 0 (padStart 4 ''0'' (toString a))) = a" by simp
  qed
  have c8: "HUD_pos_x (HUD_events f HUD_window [MouseMove 512 300] (HUD_init f now)) = ''POS_X: 0512''"
    by code_simp
  have c9: "HUD_pos_y (HUD_events f HUD_window [MouseMove 512 300] (HUD_init f now)) = ''POS_Y: 0300''"
    by code_simp
  from c1 c2 c3 c4 c5 c6 c7 c8 c9 show ?thesis by blast
qed

theorem HUD_pointer_display_witness:
  "coords (HUD_events (\<lambda>t. ''12:00:00'') HUD_window ([MouseMove 3 4, MouseMove 512 300] @ [TimerFire 1 7])
        (HUD_init (\<lambda>t. ''12:00:00'') 0)) = (512, 300)
   \<and> (0::int) \<le> 512
   \<and> padStart 4 ''0'' (toString 512) = ''0512''
   \<and> decimal 0 (padStart 4 ''0'' (toString 512)) = 512"
proof -
  have p: "padStart 4 ''0'' (toString 512) = ''0512''" by code_simp
  have n: "\<forall>a b. TimerFire 1 7 \<noteq> MouseMove a b" by simp
  have z: "(0::int) \<le> 512" by simp
  have prev: "coords (HUD_events (\<lambda>t. ''12:00:00'') HUD_window ([MouseMove 3 4] @ [MouseMove 512 300])
        (HUD_init (\<lambda>t. ''12:00:00'') 0)) = (512, 300)"
    using HUD_pointer_display [where f = "\<lambda>t. ''12:00:00''" and now = 0 and es = "[MouseMove 3 4]"
        and a = 512 and b = 300]
    by blast
  from HUD_pointer_display [where f = "\<lambda>t. ''12:00:00''" and now = 0
      and es = "[MouseMove 3 4, MouseMove 512 300]" and e = "TimerFire 1 7" and a = 512] n z prev p
  show ?thesis by simp
qed

text \<open>
  C10. The clock string at mount is the formatted wall-clock time of the mount, made by
  the same formatting function that the timer callback uses. It is what the HUD shows
  as long as no timer event has arrived, whatever other events do.
\<close>

theorem HUD_clock_at_mount:
  "HUD_clock (HUD_init f now) = f now
   \<and> ((\<forall>e\<in>set es. \<forall>i t. e \<noteq> TimerFire i t) \<longrightarrow>
        HUD_clock (HUD_events f HUD_window es (HUD_init f now)) = f now)
   \<and> HUD_clock (HUD_event f HUD_window (TimerFire HUD_timer t1) s) = f t1
   \<and> HUD_clock (HUD_init f now) \<in> range f"
proof -
  have "(\<forall>e\<in>set es. \<forall>i t. e \<noteq> TimerFire i t) \<longrightarrow>
        HUD_clock (HUD_events f HUD_window es (HUD_init f now)) = f now"
    by (simp add: HUD_clock_def HUD_events_time_other HUD_init_def)
  then show ?thesis
    by (simp add: HUD_clock_def HUD_init_def HUD_event_TimerFire)
qed

theorem HUD_clock_at_mount_witness:
  "HUD_clock (HUD_events (\<lambda>t. digits (t div 1000)) HUD_window [MouseMove 3 4, Frame 0.5]
        (HUD_init (\<lambda>t. digits (t div 1000)) 5000)) = ''5''
   \<and> HUD_clock (HUD_event (\<lambda>t. digits (t div 1000)) HUD_window (TimerFire HUD_timer 6000)
        (HUD_init (\<lambda>t. digits (t div 1000)) 5000)) = ''6''"
proof -
  have d: "digits (5000 div 1000) = ''5''" "digits (6000 div 1000) = ''6''" by code_simp+
  have n: "\<forall>e\<in>set [MouseMove 3 4, Frame 0.5]. \<forall>i t. e \<noteq> TimerFire i t" by simp
  from HUD_clock_at_mount [of "\<lambda>t. digits (t div 1000)" 5000 "[MouseMove 3 4, Frame 0.5]" 6000
      "HUD_init (\<lambda>t. digits (t div 1000)) 5000"] n d
  show ?thesis by simp
qed

lemma dispatch_cong:
  "intervals w1 = intervals w2 \<Longrightarrow> listeners w1 = listeners w2 \<Longrightarrow> dispatch w1 e = dispatch w2 e"
  by (cases e) simp_all

text \<open>
  C6. On a window whose timer ids are below the next id and which has no such listener
  yet, the effect of HUD adds exactly two subscriptions: one interval timer of period
  1000 ms and one \<^verbatim>\<open>mousemove\<close> listener. Its cleanup removes exactly these two, so
  every event is dispatched as before the mount. On the page, where the HUD is the only
  subscriber, no callback runs after unmount and the HUD's state no longer changes.
\<close>

theorem HUD_subscriptions:
  assumes "\<forall>(j, ms, cb)\<in>set (intervals w). j < next_timer w"
    and "(''mousemove'', HandleMouseMove) \<notin> set (listeners w)"
  shows "intervals (snd (HUD_effect w)) = intervals w @ [(fst (HUD_effect w), 1000, SetTimeTick)]
     \<and> listeners (snd (HUD_effect w)) = listeners w @ [(''mousemove'', HandleMouseMove)]
     \<and> length (intervals (snd (HUD_effect w))) + length (listeners (snd (HUD_effect w)))
         = length (intervals w) + length (listeners w) + 2
     \<and> intervals (HUD_cleanup (fst (HUD_effect w)) (snd (HUD_effect w))) = intervals w
     \<and> listeners (HUD_cleanup (fst (HUD_effect w)) (snd (HUD_effect w))) = listeners w
     \<and> dispatch (HUD_cleanup (fst (HUD_effect w)) (snd (HUD_effect w))) e = dispatch w e
     \<and> dispatch (HUD_cleanup HUD_timer HUD_window) e = []
     \<and> HUD_events f (HUD_cleanup HUD_timer HUD_window) es s = s"
proof -
  have i1: "intervals (snd (HUD_effect w)) = intervals w @ [(fst (HUD_effect w), 1000, SetTimeTick)]"
    by (simp add: HUD_effect_def setInterval_def addEventListener_def)
  have l1: "listeners (snd (HUD_effect w)) = listeners w @ [(''mousemove'', HandleMouseMove)]"
    using assms(2) by (simp add: HUD_effect_def setInterval_def addEventListener_def)
  have keep: "filter (\<lambda>(j, ms, cb). j \<noteq> next_timer w) (intervals w) = intervals w"
    using assms(1) by (intro filter_True) auto
  have i2: "intervals (HUD_cleanup (fst (HUD_effect w)) (snd (HUD_effect w))) = intervals w"
    by (simp add: HUD_cleanup_def removeEventListener_def clearInterval_def HUD_effect_def
        setInterval_def addEventListener_def keep)
  have l2: "listeners (HUD_cleanup (fst (HUD_effect w)) (snd (HUD_effect w))) = listeners w"
    using assms(2)
    by (simp add: HUD_cleanup_def removeEventListener_def clearInterval_def HUD_effect_def
        setInterval_def addEventListener_def)
  have d1: "dispatch (HUD_cleanup (fst (HUD_effect w)) (snd (HUD_effect w))) e = dispatch w e"
    by (rule dispatch_cong [OF i2 l2])
  have un: "HUD_cleanup HUD_timer HUD_window = \<lparr>intervals = [], listeners = [], next_timer = 2\<rparr>"
    by (simp add: HUD_cleanup_def removeEventListener_def clearInterval_def HUD_window_eq HUD_timer_eq)
  have d2: "dispatch (HUD_cleanup HUD_timer HUD_window) e = []" for e
    by (cases e) (simp_all add: un)
  have ev: "HUD_event f (HUD_cleanup HUD_timer HUD_window) e s = s" for e s
    by (simp add: HUD_event_def d2)
  have d3: "HUD_events f (HUD_cleanup HUD_timer HUD_window) es s = s"
    unfolding HUD_events_def by (induction es) (simp_all add: ev)
  from i1 l1 i2 l2 d1 d2 d3 show ?thesis by simp
qed

theorem HUD_subscriptions_witness:
  "intervals HUD_window = [(HUD_timer, 1000, SetTimeTick)]
   \<and> listeners HUD_window = [(''mousemove'', HandleMouseMove)]
   \<and> intervals (HUD_cleanup HUD_timer HUD_window) = []
   \<and> listeners (HUD_cleanup HUD_timer HUD_window) = []
   \<and> dispatch HUD_window (TimerFire HUD_timer 0) = [SetTimeTick]
   \<and> dispatch HUD_window (MouseMove 1 2) = [HandleMouseMove]
   \<and> dispatch (HUD_cleanup HUD_timer HUD_window) (TimerFire HUD_timer 0) = []
   \<and> dispatch (HUD_cleanup HUD_timer HUD_window) (MouseMove 1 2) = []"
proof -
  have h: "\<forall>(j, ms, cb)\<in>set (intervals window_load). j < next_timer window_load"
    "(''mousemove'', HandleMouseMove) \<notin> set (listeners window_load)"
    by (simp_all add: window_load_def)
  have d: "dispatch HUD_window (TimerFire HUD_timer 0) = [SetTimeTick]"
    "dispatch HUD_window (MouseMove 1 2) = [HandleMouseMove]"
    by (simp_all add: HUD_window_eq HUD_timer_eq)
  have e: "intervals window_load = []" "listeners window_load = []"
    by (simp_all add: window_load_def)
  from HUD_subscriptions [OF h, of "TimerFire HUD_timer 0"]
    HUD_subscriptions [OF h, of "MouseMove 1 2"] h d e
  show ?thesis
    unfolding HUD_window_def HUD_timer_def by simp
qed

section \<open>Properties of Gallery\<close>

lemma Gallery_step_length: "length (Gallery_step s e) = length s"
  by (cases e) simp_all

lemma Gallery_step_revealed:
  "i < length s \<Longrightarrow> revealed (s ! i) \<Longrightarrow> revealed (Gallery_step s e ! i) \<and> \<not> Gallery_played i s e"
proof (cases e)
  case (Intersection j b)
  assume "i < length s" "revealed (s ! i)"
  then show ?thesis
    by (cases "j = i")
       (auto simp: Intersection revealed_def onIntersectionUpdate_def setActive_def Gallery_viewport_def)
qed simp_all

lemma Gallery_reveals_revealed:
  "i < length s \<Longrightarrow> revealed (s ! i) \<Longrightarrow> Gallery_reveals i s es = 0 \<and> revealed (Gallery_run s es ! i)"
proof (induction es arbitrary: s)
  case Nil
  then show ?case by simp
next
  case (Cons e es)
  from Gallery_step_revealed [OF Cons.prems] Cons.IH [of "Gallery_step s e"] Cons.prems(1)
  show ?case by (simp add: Gallery_step_length del: Gallery_step.simps Gallery_played.simps)
qed

lemma Gallery_step_enter:
  "i < length s \<Longrightarrow> s ! i = inview_mount \<Longrightarrow>
   Gallery_played i s (Intersection i True) \<and> revealed (Gallery_step s (Intersection i True) ! i)"
  by (simp add: revealed_def onIntersectionUpdate_def setActive_def Gallery_viewport_def inview_mount_def)

lemma Gallery_step_idle:
  "i < length s \<Longrightarrow> s ! i = inview_mount \<Longrightarrow> e \<noteq> Intersection i True \<Longrightarrow>
   \<not> Gallery_played i s e \<and> Gallery_step s e ! i = inview_mount"
proof (cases e)
  case (Intersection j b)
  assume "i < length s" "s ! i = inview_mount" "e \<noteq> Intersection i True"
  then show ?thesis
    by (cases "j = i")
       (auto simp: Intersection onIntersectionUpdate_def setActive_def Gallery_viewport_def inview_mount_def)
qed simp_all

lemma Gallery_reveals_hidden:
  "i < length s \<Longrightarrow> s ! i = inview_mount \<Longrightarrow>
   Gallery_reveals i s es = (if Intersection i True \<in> set es then 1 else 0)
   \<and> revealed (Gallery_run s es ! i) = (Intersection i True \<in> set es)"
proof (induction es arbitrary: s)
  case Nil
  then show ?case by (simp add: revealed_def inview_mount_def)
next
  case (Cons e es)
  show ?case
  proof (cases "e = Intersection i True")
    case True
    from Gallery_step_enter [OF Cons.prems] have
      p: "Gallery_played i s e" and r: "revealed (Gallery_step s e ! i)"
      unfolding True by blast+
    from Cons.prems(1) have "i < length (Gallery_step s e)" by (simp add: Gallery_step_length)
    from Gallery_reveals_revealed [OF this r, of es] p True show ?thesis
      by (simp del: Gallery_step.simps Gallery_played.simps)
  next
    case False
    from Gallery_step_idle [OF Cons.prems False] have
      p: "\<not> Gallery_played i s e" and r: "Gallery_step s e ! i = inview_mount" by simp_all
    from Cons.prems(1) have "i < length (Gallery_step s e)" by (simp add: Gallery_step_length)
    from Cons.IH [OF this r] p False show ?thesis
      by (auto simp del: Gallery_step.simps Gallery_played.simps)
  qed
qed

lemma Gallery_reveals_out_of_range:
  "\<not> i < length s \<Longrightarrow> Gallery_reveals i s es = 0"
proof (induction es arbitrary: s)
  case Nil
  then show ?case by simp
next
  case (Cons e es)
  from Cons.prems have "\<not> Gallery_played i s e" by (cases e) simp_all
  with Cons.IH [of "Gallery_step s e"] Cons.prems show ?case
    by (simp add: Gallery_step_length del: Gallery_step.simps Gallery_played.simps)
qed

text \<open>
  C8. For every gallery image and every sequence of events, the reveal transition
  plays at most once. It plays exactly when the image enters the viewport for the
  first time, the image stays revealed from then on, and leaving and entering again
  plays nothing more.
\<close>

theorem Gallery_reveal_once:
  "Gallery_reveals i Gallery_mount es \<le> 1
   \<and> (i < length images \<longrightarrow>
        Gallery_reveals i Gallery_mount es = (if Intersection i True \<in> set es then 1 else 0)
        \<and> revealed (Gallery_run Gallery_mount es ! i) = (Intersection i True \<in> set es))
   \<and> (i < length images \<longrightarrow>
        Gallery_reveals i Gallery_mount
          (es @ [Intersection i True, Intersection i False, Intersection i True]) =
        Gallery_reveals i Gallery_mount (es @ [Intersection i True]))
   \<and> once Gallery_viewport \<and> length images = 6"
proof -
  have len: "length Gallery_mount = length images" by (simp add: Gallery_mount_def)
  have a: "i < length images \<longrightarrow>
        Gallery_reveals i Gallery_mount es = (if Intersection i True \<in> set es then 1 else 0)
        \<and> revealed (Gallery_run Gallery_mount es ! i) = (Intersection i True \<in> set es)"
    using Gallery_reveals_hidden [of i Gallery_mount es] by (simp add: len) (simp add: Gallery_mount_def)
  have b: "Gallery_reveals i Gallery_mount es \<le> 1"
  proof (cases "i < length images")
    case True
    with a show ?thesis by simp
  next
    case False
    then show ?thesis by (simp add: Gallery_reveals_out_of_range len)
  qed
  have c: "i < length images \<longrightarrow>
        Gallery_reveals i Gallery_mount
          (es @ [Intersection i True, Intersection i False, Intersection i True]) =
        Gallery_reveals i Gallery_mount (es @ [Intersection i True])"
    using Gallery_reveals_hidden [of i Gallery_mount "es @ [Intersection i True, Intersection i False, Intersection i True]"]
      Gallery_reveals_hidden [of i Gallery_mount "es @ [Intersection i True]"]
    by (simp add: len) (simp add: Gallery_mount_def)
  have d: "once Gallery_viewport" "length images = 6"
    by (simp_all add: Gallery_viewport_def images_def)
  from a b c d show ?thesis by blast
qed

theorem Gallery_reveal_once_witness:
  "(3::nat) < length images
   \<and> Gallery_reveals 3 Gallery_mount
       [Intersection 3 True, Intersection 3 False, MouseMove 1 2, Intersection 3 True] = 1
   \<and> Gallery_reveals 3 Gallery_mount [Intersection 2 True, Intersection 3 False] = 0"
proof -
  have l: "(3::nat) < length images" by (simp add: images_def)
  from Gallery_reveal_once [of 3 "[Intersection 3 True, Intersection 3 False, MouseMove 1 2, Intersection 3 True]"]
    Gallery_reveal_once [of 3 "[Intersection 2 True, Intersection 3 False]"] l
  show ?thesis by simp
qed

text \<open>Without \<^verbatim>\<open>once\<close> the same updates would play the reveal a second time.\<close>

lemma replay_without_once:
  "snd (onIntersectionUpdate \<lparr>once = False, margin = ''-10%''\<rparr> True
     (fst (onIntersectionUpdate \<lparr>once = False, margin = ''-10%''\<rparr> False
       (fst (onIntersectionUpdate \<lparr>once = False, margin = ''-10%''\<rparr> True inview_mount)))))"
  by (simp add: onIntersectionUpdate_def setActive_def inview_mount_def)

section \<open>Properties of BackgroundElements\<close>

lemma data_group_length: "length (data_group draws is k) = length is"
  by (induction "is" arbitrary: k) (simp_all add: data_def Math_random_def)

lemma data_group_x:
  "map initial_x (data_group draws is k) =
     map (\<lambda>i. if i mod 2 = 0 then Percent (-10) else Percent 110) is
   \<and> map animate_x (data_group draws is k) =
     map (\<lambda>i. [if i mod 2 = 0 then Percent 110 else Percent (-10)]) is"
  by (induction "is" arbitrary: k) (simp_all add: data_def Math_random_def)

lemma data_group_random:
  "map initial_y (data_group draws is k) = map (\<lambda>j. Percent (draws (k + 2 * j) * 100)) [0..<length is]
   \<and> map transition_duration (data_group draws is k)
       = map (\<lambda>j. 30 + draws (k + 2 * j + 1) * 20) [0..<length is]"
proof (induction "is" arbitrary: k)
  case Nil
  then show ?case by simp
next
  case (Cons i "is")
  have shift: "[0..<length (i # is)] = 0 # map Suc [0..<length is]"
    by (simp add: upt_conv_Cons map_Suc_upt del: upt_Suc)
  from Cons.IH [of "Suc (Suc k)"] show ?case
    unfolding shift by (simp add: data_def Math_random_def comp_def)
qed

text \<open>
  C9 as stated fails: the initial vertical offset of a data string is a random draw.
  Two renders whose first draws are 0 and 1/2 start the first data string at 0% and
  at 50%.
\<close>

theorem background_initial_y_random:
  "initial_y (strings (BackgroundElements (\<lambda>k. 0)) ! 0) = Percent 0
   \<and> initial_y (strings (BackgroundElements (\<lambda>k. 1 / 2)) ! 0) = Percent 50
   \<and> map initial_y (strings (BackgroundElements (\<lambda>k. 0)))
       \<noteq> map initial_y (strings (BackgroundElements (\<lambda>k. 1 / 2)))"
  by (simp add: BackgroundElements_def upt_conv_Cons data_def Math_random_def)

text \<open>
  C9, amended. In any two renders the aperture glyphs and the focus reticles are the
  same, with initial offsets \<open>(30 i + 10, 20 i + 20)\<close> and \<open>(25 i + 5, 15 i + 10)\<close>
  percent. The data strings start at -10% or 110% and travel to the other side by the
  parity of the index, the same in any two renders. What differs between renders is
  the initial vertical offset and the duration of each data string, which are the
  draws \<open>2 i\<close> and \<open>2 i + 1\<close> of the random source.
\<close>

theorem background_determinism:
  "apertures (BackgroundElements d1) = apertures (BackgroundElements d2)
   \<and> reticles (BackgroundElements d1) = reticles (BackgroundElements d2)
   \<and> map initial_x (apertures (BackgroundElements d1)) = map (\<lambda>i. Percent (real i * 30 + 10)) [0..<3]
   \<and> map initial_y (apertures (BackgroundElements d1)) = map (\<lambda>i. Percent (real i * 20 + 20)) [0..<3]
   \<and> map initial_x (reticles (BackgroundElements d1)) = map (\<lambda>i. Percent (real i * 25 + 5)) [0..<4]
   \<and> map initial_y (reticles (BackgroundElements d1)) = map (\<lambda>i. Percent (real i * 15 + 10)) [0..<4]
   \<and> map initial_x (strings (BackgroundElements d1)) =
       map (\<lambda>i. if i mod 2 = 0 then Percent (-10) else Percent 110) [0..<4]
   \<and> map animate_x (strings (BackgroundElements d1)) =
       map (\<lambda>i. [if i mod 2 = 0 then Percent 110 else Percent (-10)]) [0..<4]
   \<and> map initial_x (strings (BackgroundElements d1)) = map initial_x (strings (BackgroundElements d2))
   \<and> map animate_x (strings (BackgroundElements d1)) = map animate_x (strings (BackgroundElements d2))
   \<and> map initial_y (strings (BackgroundElements d1)) = map (\<lambda>j. Percent (d1 (2 * j) * 100)) [0..<4]
   \<and> map transition_duration (strings (BackgroundElements d1)) =
       map (\<lambda>j. 30 + d1 (2 * j + 1) * 20) [0..<4]"
proof -
  have a: "apertures (BackgroundElements d1) = apertures (BackgroundElements d2)"
    "reticles (BackgroundElements d1) = reticles (BackgroundElements d2)"
    by (simp_all add: BackgroundElements_def)
  have b: "map initial_x (apertures (BackgroundElements d1)) = map (\<lambda>i. Percent (real i * 30 + 10)) [0..<3]"
    "map initial_y (apertures (BackgroundElements d1)) = map (\<lambda>i. Percent (real i * 20 + 20)) [0..<3]"
    "map initial_x (reticles (BackgroundElements d1)) = map (\<lambda>i. Percent (real i * 25 + 5)) [0..<4]"
    "map initial_y (reticles (BackgroundElements d1)) = map (\<lambda>i. Percent (real i * 15 + 10)) [0..<4]"
    by (simp_all add: BackgroundElements_def aperture_def focus_def comp_def)
  have x: "map initial_x (strings (BackgroundElements d)) =
       map (\<lambda>i. if i mod 2 = 0 then Percent (-10) else Percent 110) [0..<4]"
    "map animate_x (strings (BackgroundElements d)) =
       map (\<lambda>i. [if i mod 2 = 0 then Percent 110 else Percent (-10)]) [0..<4]" for d
    using data_group_x [of d "[0..<4]" 0] by (simp_all add: BackgroundElements_def)
  have r: "map initial_y (strings (BackgroundElements d1)) = map (\<lambda>j. Percent (d1 (2 * j) * 100)) [0..<4]"
    "map transition_duration (strings (BackgroundElements d1)) =
       map (\<lambda>j. 30 + d1 (2 * j + 1) * 20) [0..<4]"
    using data_group_random [of d1 "[0..<4]" 0] by (simp_all add: BackgroundElements_def)
  from a b x [of d1] x [of d2] r show ?thesis by simp
qed

theorem background_determinism_witness:
  "map initial_x (apertures (BackgroundElements (\<lambda>k. 1 / 2))) = [Percent 10, Percent 40, Percent 70]
   \<and> map initial_y (reticles (BackgroundElements (\<lambda>k. 1 / 2))) = [Percent 10, Percent 25, Percent 40, Percent 55]
   \<and> map initial_x (strings (BackgroundElements (\<lambda>k. 1 / 2))) =
       [Percent (-10), Percent 110, Percent (-10), Percent 110]
   \<and> map transition_duration (strings (BackgroundElements (\<lambda>k. 1 / 2))) = [40, 40, 40, 40]"
  using background_determinism [of "\<lambda>k. 1 / 2" "\<lambda>k. 1 / 2"]
  by (simp add: upt_conv_Cons)

section \<open>Properties of the spring\<close>

lemma exp_decay: "r < 0 \<Longrightarrow> ((\<lambda>t::real. exp (r * t)) \<longlongrightarrow> 0) at_top"
proof -
  assume r: "r < 0"
  have "LIM t at_top. r * t :> at_bot"
    by (rule filterlim_tendsto_neg_mult_at_bot [OF tendsto_const r filterlim_ident])
  then show ?thesis by (rule filterlim_compose [OF exp_at_bot])
qed

lemma spring_overdamped_limit:
  assumes "r1 < 0" and "r2 < 0"
  shows "((\<lambda>t. spring_overdamped r1 r2 target x0 v0 t) \<longlongrightarrow> target) at_top"
proof -
  have "((\<lambda>t. target + (v0 - r2 * (x0 - target)) / (r1 - r2) * exp (r1 * t)
            + (r1 * (x0 - target) - v0) / (r1 - r2) * exp (r2 * t))
     \<longlongrightarrow> target + (v0 - r2 * (x0 - target)) / (r1 - r2) * 0
            + (r1 * (x0 - target) - v0) / (r1 - r2) * 0) at_top"
    by (intro tendsto_add tendsto_mult tendsto_const exp_decay assms)
  then show ?thesis by (simp add: spring_overdamped_def)
qed

lemma spring_overdamped_start:
  assumes "r1 \<noteq> r2"
  shows "spring_overdamped r1 r2 target x0 v0 0 = x0"
proof -
  from assms have nz: "r1 - r2 \<noteq> 0" by simp
  have "(v0 - r2 * (x0 - target)) / (r1 - r2) + (r1 * (x0 - target) - v0) / (r1 - r2)
        = ((r1 - r2) * (x0 - target)) / (r1 - r2)"
    by (simp add: add_divide_distrib [symmetric] algebra_simps)
  also have "\<dots> = x0 - target" using nz by simp
  finally show ?thesis by (simp add: spring_overdamped_def)
qed

lemma spring_overdamped_velocity:
  "((\<lambda>t. spring_overdamped r1 r2 target x0 v0 t) has_real_derivative
      spring_overdamped_velocity r1 r2 target x0 v0 t) (at t)"
proof -
  define a where "a = (v0 - r2 * (x0 - target)) / (r1 - r2)"
  define b where "b = (r1 * (x0 - target) - v0) / (r1 - r2)"
  have "((\<lambda>t. target + a * exp (r1 * t) + b * exp (r2 * t)) has_real_derivative
      a * (r1 * exp (r1 * t)) + b * (r2 * exp (r2 * t))) (at t)"
    by (auto intro!: derivative_eq_intros)
  then show ?thesis
    by (simp add: spring_overdamped_def spring_overdamped_velocity_def a_def b_def)
qed

lemma spring_overdamped_acceleration:
  assumes "r1\<^sup>2 + c * r1 + k = 0" and "r2\<^sup>2 + c * r2 + k = 0"
  shows "((\<lambda>t. spring_overdamped_velocity r1 r2 target x0 v0 t) has_real_derivative
      - k * (spring_overdamped r1 r2 target x0 v0 t - target)
      - c * spring_overdamped_velocity r1 r2 target x0 v0 t) (at t)"
proof -
  define a where "a = (v0 - r2 * (x0 - target)) / (r1 - r2)"
  define b where "b = (r1 * (x0 - target) - v0) / (r1 - r2)"
  have q1: "r1 * r1 = - c * r1 - k" using assms(1) by (simp add: power2_eq_square algebra_simps)
  have q2: "r2 * r2 = - c * r2 - k" using assms(2) by (simp add: power2_eq_square algebra_simps)
  have "((\<lambda>t. a * (r1 * exp (r1 * t)) + b * (r2 * exp (r2 * t))) has_real_derivative
      a * (r1 * (r1 * exp (r1 * t))) + b * (r2 * (r2 * exp (r2 * t)))) (at t)"
    by (auto intro!: derivative_eq_intros)
  moreover have "a * (r1 * (r1 * exp (r1 * t))) + b * (r2 * (r2 * exp (r2 * t)))
      = - k * (a * exp (r1 * t) + b * exp (r2 * t))
        - c * (a * (r1 * exp (r1 * t)) + b * (r2 * exp (r2 * t)))"
  proof -
    have "a * (r1 * (r1 * exp (r1 * t))) = a * ((r1 * r1) * exp (r1 * t))" by simp
    moreover have "b * (r2 * (r2 * exp (r2 * t))) = b * ((r2 * r2) * exp (r2 * t))" by simp
    ultimately show ?thesis unfolding q1 q2 by (simp add: algebra_simps)
  qed
  ultimately show ?thesis
    by (simp add: spring_overdamped_def spring_overdamped_velocity_def a_def b_def)
qed

lemma spring_overdamped_velocity_start:
  assumes "r1 \<noteq> r2"
  shows "spring_overdamped_velocity r1 r2 target x0 v0 0 = v0"
proof -
  from assms have nz: "r1 - r2 \<noteq> 0" by simp
  have "(v0 - r2 * (x0 - target)) / (r1 - r2) * r1 + (r1 * (x0 - target) - v0) / (r1 - r2) * r2
        = ((r1 - r2) * v0) / (r1 - r2)"
    by (simp add: add_divide_distrib [symmetric] algebra_simps)
  also have "\<dots> = v0" using nz by simp
  finally show ?thesis by (simp add: spring_overdamped_velocity_def)
qed

lemma overdamped_roots:
  fixes s c :: real
  assumes "0 < s" and "s < c"
  shows "(- c + s) / 2 < 0" and "(- c - s) / 2 < 0" and "(- c + s) / 2 \<noteq> (- c - s) / 2"
  using assms by auto

lemma sqrt_500: "sqrt 500 < 30" "0 < sqrt 500"
proof -
  have "sqrt 500 < sqrt (30\<^sup>2)" by (rule real_sqrt_less_mono) simp
  then show "sqrt 500 < 30" by (simp only: real_sqrt_abs)
  show "0 < sqrt 500" by simp
qed

lemma spring_value_CameraStage:
  "spring_value CameraStage_spring target x0 v0 t =
     spring_overdamped ((- 30 + sqrt 500) / 2) ((- 30 - sqrt 500) / 2) target x0 v0 t"
  by (simp add: spring_value_def CameraStage_spring_def Let_def)

lemma spring_CameraStage_start: "spring_value CameraStage_spring target x0 v0 0 = x0"
  unfolding spring_value_CameraStage
  by (rule spring_overdamped_start [OF overdamped_roots(3) [OF sqrt_500(2) sqrt_500(1)]])

lemma spring_CameraStage_limit:
  "((\<lambda>t. spring_value CameraStage_spring target x0 v0 t) \<longlongrightarrow> target) at_top"
  unfolding spring_value_CameraStage
  by (rule spring_overdamped_limit [OF overdamped_roots(1,2) [OF sqrt_500(2) sqrt_500(1)]])

text \<open>
  C7 as stated fails: with stiffness 100 and damping 30 the spring is not critically
  damped, since \<open>damping\<^sup>2 = 900\<close> and \<open>4 * stiffness = 400\<close>.
\<close>

theorem CameraStage_spring_not_critical:
  "(damping CameraStage_spring)\<^sup>2 \<noteq> 4 * stiffness CameraStage_spring
   \<and> (damping CameraStage_spring)\<^sup>2 = 900 \<and> 4 * stiffness CameraStage_spring = 400"
  by (simp add: CameraStage_spring_def)

text \<open>
  C7, amended. The spring of CameraStage has stiffness 100 and damping 30 and is
  overdamped: \<open>damping\<^sup>2 > 4 * stiffness\<close>, damping ratio 3/2. For a held scroll
  progress, from any position and velocity, the smoothed scale and rotation start at
  that position and converge to the raw interpolated value as time goes to infinity.
\<close>

theorem CameraStage_spring_converges:
  "stiffness CameraStage_spring = 100 \<and> damping CameraStage_spring = 30
   \<and> 4 * stiffness CameraStage_spring < (damping CameraStage_spring)\<^sup>2
   \<and> damping CameraStage_spring / (2 * sqrt (stiffness CameraStage_spring)) = 3 / 2
   \<and> springScale p x0 v0 0 = x0
   \<and> springRotate p x0 v0 0 = x0
   \<and> ((\<lambda>t. springScale p x0 v0 t) \<longlongrightarrow> CameraStage_scale p) at_top
   \<and> ((\<lambda>t. springRotate p x0 v0 t) \<longlongrightarrow> CameraStage_rotate p) at_top"
proof -
  have "sqrt 100 = 10" using real_sqrt_abs [of 10] by simp
  then have ratio: "damping CameraStage_spring / (2 * sqrt (stiffness CameraStage_spring)) = 3 / 2"
    by (simp add: CameraStage_spring_def)
  have vals: "stiffness CameraStage_spring = 100" "damping CameraStage_spring = 30"
    "4 * stiffness CameraStage_spring < (damping CameraStage_spring)\<^sup>2"
    by (simp_all add: CameraStage_spring_def)
  have start: "springScale p x0 v0 0 = x0" "springRotate p x0 v0 0 = x0"
    by (simp_all add: springScale_def springRotate_def spring_CameraStage_start)
  have lim: "((\<lambda>t. springScale p x0 v0 t) \<longlongrightarrow> CameraStage_scale p) at_top"
    "((\<lambda>t. springRotate p x0 v0 t) \<longlongrightarrow> CameraStage_rotate p) at_top"
    unfolding springScale_def springRotate_def by (rule spring_CameraStage_limit)+
  from ratio vals start lim show ?thesis by blast
qed

theorem CameraStage_spring_converges_witness:
  "((\<lambda>t. springScale 1 1 0 t) \<longlongrightarrow> 0.8) at_top
   \<and> ((\<lambda>t. springRotate 1 0 0 t) \<longlongrightarrow> -5) at_top
   \<and> springScale 1 1 0 0 = 1"
proof -
  have e: "CameraStage_scale 1 = 0.8" "CameraStage_rotate 1 = -5"
    by (simp_all add: CameraStage_scale_def CameraStage_rotate_def useTransform_def clamp_def
        progress_def mixNumber_def)
  from CameraStage_spring_converges [of 1 1 0] CameraStage_spring_converges [of 1 0 0] e
  show ?thesis by simp
qed

text \<open>The closed form is the motion of the spring: it has the velocity and obeys the equation.\<close>

lemma characteristic_roots:
  fixes s c k :: real
  assumes "s * s = c\<^sup>2 - 4 * k"
  shows "((- c + s) / 2)\<^sup>2 + c * ((- c + s) / 2) + k = 0"
    and "((- c - s) / 2)\<^sup>2 + c * ((- c - s) / 2) + k = 0"
proof -
  have "4 * (((- c + s) / 2)\<^sup>2 + c * ((- c + s) / 2) + k) = s * s - (c\<^sup>2 - 4 * k)"
    by (simp add: power2_eq_square field_simps)
  with assms show "((- c + s) / 2)\<^sup>2 + c * ((- c + s) / 2) + k = 0" by simp
  have "4 * (((- c - s) / 2)\<^sup>2 + c * ((- c - s) / 2) + k) = s * s - (c\<^sup>2 - 4 * k)"
    by (simp add: power2_eq_square field_simps)
  with assms show "((- c - s) / 2)\<^sup>2 + c * ((- c - s) / 2) + k = 0" by simp
qed

lemma spring_CameraStage_motion:
  "((\<lambda>t. spring_overdamped ((- 30 + sqrt 500) / 2) ((- 30 - sqrt 500) / 2) target x0 v0 t)
      has_real_derivative
      spring_overdamped_velocity ((- 30 + sqrt 500) / 2) ((- 30 - sqrt 500) / 2) target x0 v0 t) (at t)
   \<and> ((\<lambda>t. spring_overdamped_velocity ((- 30 + sqrt 500) / 2) ((- 30 - sqrt 500) / 2) target x0 v0 t)
      has_real_derivative
      - 100 * (spring_value CameraStage_spring target x0 v0 t - target)
      - 30 * spring_overdamped_velocity ((- 30 + sqrt 500) / 2) ((- 30 - sqrt 500) / 2) target x0 v0 t) (at t)
   \<and> spring_overdamped_velocity ((- 30 + sqrt 500) / 2) ((- 30 - sqrt 500) / 2) target x0 v0 0 = v0"
proof -
  have s: "sqrt 500 * sqrt 500 = 30\<^sup>2 - 4 * 100"
    using real_sqrt_mult_self [of 500] by (simp del: real_sqrt_mult_self)
  from spring_overdamped_acceleration [OF characteristic_roots [OF s]]
    spring_overdamped_velocity
    spring_overdamped_velocity_start [OF overdamped_roots(3) [OF sqrt_500(2) sqrt_500(1)]]
  show ?thesis unfolding spring_value_CameraStage by blast
qed

end
